theory Spec2Isabelle
  imports Main
begin

section \<open>Time values and calendar arithmetic of the host language\<close>

text \<open>
  The chore code works on JavaScript \<open>Date\<close> objects through \<open>setMonth\<close>, \<open>getMonth\<close> and the
  date-fns helpers \<open>addDays\<close>, \<open>format\<close>, \<open>isToday\<close>, \<open>isPast\<close> and \<open>isThisWeek\<close>. A \<open>Date\<close> is
  a time value: milliseconds since 1970-01-01T00:00:00Z. The definitions below are the
  abstract operations of the ECMAScript specification on time values (Day, TimeWithinDay,
  DaysInYear, DayFromYear, YearFromTime, MonthFromTime, DateFromTime, WeekDay, MakeDay,
  MakeDate, MakeTime, LocalTime, UTC), on which those methods are defined.

  Two conventions. The host's offset from UTC, \<open>tza\<close> (milliseconds), is a parameter and is
  constant: daylight-saving transitions are not modelled. Time values are integers; the
  bound of ECMAScript's TimeClip (8.64e15 ms either side of the epoch, the year 275760) is not
  modelled, so a statement about every time value is about every time value whose results
  stay inside that range.
\<close>

type_synonym timestamp = int

definition msPerDay :: int where
  "msPerDay = 86400000"

definition msPerHour :: int where
  "msPerHour = 3600000"

definition msPerMinute :: int where
  "msPerMinute = 60000"

definition msPerSecond :: int where
  "msPerSecond = 1000"

definition Day :: "timestamp \<Rightarrow> int" where
  "Day t = t div msPerDay"

definition TimeWithinDay :: "timestamp \<Rightarrow> int" where
  "TimeWithinDay t = t mod msPerDay"

definition DaysInYear :: "int \<Rightarrow> int" where
  "DaysInYear y =
     (if y mod 4 \<noteq> 0 then 365
      else if y mod 100 \<noteq> 0 then 366
      else if y mod 400 \<noteq> 0 then 365
      else 366)"

definition DayFromYear :: "int \<Rightarrow> int" where
  "DayFromYear y =
     365 * (y - 1970) + (y - 1969) div 4 - (y - 1901) div 100 + (y - 1601) div 400"

lemma div_succ_int:
  fixes a k :: int
  assumes "0 < k"
  shows "(a + 1) div k = (if (a + 1) mod k = 0 then a div k + 1 else a div k)"
proof -
  define q r where "q = a div k" and "r = a mod k"
  have a: "a = k * q + r" unfolding q_def r_def by simp
  have r: "0 \<le> r" "r < k" using assms by (simp_all add: r_def)
  show ?thesis
  proof (cases "r + 1 = k")
    case True
    have e: "a + 1 = k * (q + 1) + 0" using a True by (simp add: algebra_simps)
    have "(a + 1) div k = q + 1"
      by (rule int_div_pos_eq [OF e]) (use assms in simp_all)
    moreover have "(a + 1) mod k = 0"
      by (rule int_mod_pos_eq [OF e]) (use assms in simp_all)
    ultimately show ?thesis by (simp add: q_def)
  next
    case False
    then have lt: "r + 1 < k" using r by linarith
    have e: "a + 1 = k * q + (r + 1)" using a by simp
    have "(a + 1) div k = q"
      by (rule int_div_pos_eq [OF e]) (use r lt in simp_all)
    moreover have "(a + 1) mod k = r + 1"
      by (rule int_mod_pos_eq [OF e]) (use r lt in simp_all)
    ultimately show ?thesis using r by (simp add: q_def)
  qed
qed

lemma DayFromYear_step: "DayFromYear (y + 1) = DayFromYear y + DaysInYear y"
proof -
  have m4: "(y - 1968) mod 4 = y mod 4"
    using mod_mult_self1 [of y "-492" 4] by simp
  have m100: "(y - 1900) mod 100 = y mod 100"
    using mod_mult_self1 [of y "-19" 100] by simp
  have m400: "(y - 1600) mod 400 = y mod 400"
    using mod_mult_self1 [of y "-4" 400] by simp
  have d4: "(y - 1968) div 4 =
      (if y mod 4 = 0 then (y - 1969) div 4 + 1 else (y - 1969) div 4)"
    using div_succ_int [of 4 "y - 1969"] m4 by simp
  have d100: "(y - 1900) div 100 =
      (if y mod 100 = 0 then (y - 1901) div 100 + 1 else (y - 1901) div 100)"
    using div_succ_int [of 100 "y - 1901"] m100 by simp
  have d400: "(y - 1600) div 400 =
      (if y mod 400 = 0 then (y - 1601) div 400 + 1 else (y - 1601) div 400)"
    using div_succ_int [of 400 "y - 1601"] m400 by simp
  have c1: "y mod 4 = 0" if "y mod 100 = 0"
  proof -
    have "(4::int) dvd 100" by simp
    moreover have "100 dvd y" using that by (simp add: dvd_eq_mod_eq_0)
    ultimately have "4 dvd y" by (rule dvd_trans)
    then show ?thesis by simp
  qed
  have c2: "y mod 100 = 0" if "y mod 400 = 0"
  proof -
    have "(100::int) dvd 400" by simp
    moreover have "400 dvd y" using that by (simp add: dvd_eq_mod_eq_0)
    ultimately have "100 dvd y" by (rule dvd_trans)
    then show ?thesis by simp
  qed
  have s: "y + 1 - 1969 = y - 1968" "y + 1 - 1901 = y - 1900" "y + 1 - 1601 = y - 1600"
    by simp_all
  show ?thesis
    unfolding DayFromYear_def DaysInYear_def s d4 d100 d400
    using c1 c2 by auto
qed

lemma DaysInYear_bounds: "365 \<le> DaysInYear y" "DaysInYear y \<le> 366"
  by (simp_all add: DaysInYear_def)

lemma DayFromYear_less_succ: "DayFromYear y < DayFromYear (y + 1)"
  using DaysInYear_bounds(1) [of y] by (simp add: DayFromYear_step)

text \<open>
  YearFromTime(t) is the largest year whose first day is not after \<open>t\<close>. It is computed by
  a search upwards from a year that is certainly not too late; \<open>YearFromTime_bounds\<close> and
  \<open>YearFromTime_eqI\<close> below show that the search finds that year.
\<close>

function find_year :: "int \<Rightarrow> int \<Rightarrow> int" where
  "find_year d y = (if DayFromYear (y + 1) \<le> d then find_year d (y + 1) else y)"
  by pat_completeness auto
termination
proof (relation "measure (\<lambda>(d, y). nat (d - DayFromYear y))")
  show "wf (measure (\<lambda>(d, y). nat (d - DayFromYear y)))" by simp
next
  fix d y :: int
  assume "DayFromYear (y + 1) \<le> d"
  then show "((d, y + 1), (d, y)) \<in> measure (\<lambda>(d, y). nat (d - DayFromYear y))"
    using DayFromYear_less_succ [of y] by simp
qed

declare find_year.simps [simp del]

definition YearFromTime :: "timestamp \<Rightarrow> int" where
  "YearFromTime t =
     (let d = Day t
      in find_year d (1970 + (if 0 \<le> d then d div 366 else d div 365)))"

definition InLeapYear :: "timestamp \<Rightarrow> int" where
  "InLeapYear t = (if DaysInYear (YearFromTime t) = 366 then 1 else 0)"

definition DayWithinYear :: "timestamp \<Rightarrow> int" where
  "DayWithinYear t = Day t - DayFromYear (YearFromTime t)"

text \<open>Months are numbered from 0 (January) to 11 (December), as \<open>getMonth\<close> does.\<close>

definition MonthFromTime :: "timestamp \<Rightarrow> int" where
  "MonthFromTime t =
     (let d = DayWithinYear t; l = InLeapYear t
      in if d < 31 then 0
         else if d < 59 + l then 1
         else if d < 90 + l then 2
         else if d < 120 + l then 3
         else if d < 151 + l then 4
         else if d < 181 + l then 5
         else if d < 212 + l then 6
         else if d < 243 + l then 7
         else if d < 273 + l then 8
         else if d < 304 + l then 9
         else if d < 334 + l then 10
         else 11)"

text \<open>
  The day within the year on which month \<open>m\<close> starts, in a year with \<open>l\<close> leap days: the
  offsets of ECMAScript's DateFromTime table.
\<close>

definition MonthStart :: "int \<Rightarrow> int \<Rightarrow> int" where
  "MonthStart m l =
     (if m = 0 then 0
      else if m = 1 then 31
      else if m = 2 then 59 + l
      else if m = 3 then 90 + l
      else if m = 4 then 120 + l
      else if m = 5 then 151 + l
      else if m = 6 then 181 + l
      else if m = 7 then 212 + l
      else if m = 8 then 243 + l
      else if m = 9 then 273 + l
      else if m = 10 then 304 + l
      else 334 + l)"

text \<open>The number of days of month \<open>m\<close> in year \<open>y\<close>.\<close>

definition DaysInMonth :: "int \<Rightarrow> int \<Rightarrow> int" where
  "DaysInMonth y m =
     (if m = 1 then (if DaysInYear y = 366 then 29 else 28)
      else if m = 3 \<or> m = 5 \<or> m = 8 \<or> m = 10 then 30
      else 31)"

definition DateFromTime :: "timestamp \<Rightarrow> int" where
  "DateFromTime t = DayWithinYear t - MonthStart (MonthFromTime t) (InLeapYear t) + 1"

definition WeekDay :: "timestamp \<Rightarrow> int" where
  "WeekDay t = (Day t + 4) mod 7"

definition HourFromTime :: "timestamp \<Rightarrow> int" where
  "HourFromTime t = (t div msPerHour) mod 24"

definition MinFromTime :: "timestamp \<Rightarrow> int" where
  "MinFromTime t = (t div msPerMinute) mod 60"

definition SecFromTime :: "timestamp \<Rightarrow> int" where
  "SecFromTime t = (t div msPerSecond) mod 60"

definition MakeTime :: "int \<Rightarrow> int \<Rightarrow> int \<Rightarrow> int \<Rightarrow> int" where
  "MakeTime hour minute sec ms = hour * msPerHour + minute * msPerMinute + sec * msPerSecond + ms"

definition MakeDay :: "int \<Rightarrow> int \<Rightarrow> int \<Rightarrow> int" where
  "MakeDay year month date =
     (let ym = year + month div 12; mn = month mod 12
      in DayFromYear ym + MonthStart mn (if DaysInYear ym = 366 then 1 else 0) + date - 1)"

definition MakeDate :: "int \<Rightarrow> int \<Rightarrow> timestamp" where
  "MakeDate day time = day * msPerDay + time"

definition LocalTime :: "int \<Rightarrow> timestamp \<Rightarrow> timestamp" where
  "LocalTime tza t = t + tza"

definition UTC :: "int \<Rightarrow> timestamp \<Rightarrow> timestamp" where
  "UTC tza t = t - tza"


subsection \<open>The \<open>Date\<close> methods the code calls\<close>

definition getDate :: "int \<Rightarrow> timestamp \<Rightarrow> int" where
  "getDate tza t = DateFromTime (LocalTime tza t)"

definition getMonth :: "int \<Rightarrow> timestamp \<Rightarrow> int" where
  "getMonth tza t = MonthFromTime (LocalTime tza t)"

definition getDay :: "int \<Rightarrow> timestamp \<Rightarrow> int" where
  "getDay tza t = WeekDay (LocalTime tza t)"

definition setDate :: "int \<Rightarrow> timestamp \<Rightarrow> int \<Rightarrow> timestamp" where
  "setDate tza t dt =
     (let lt = LocalTime tza t
      in UTC tza (MakeDate (MakeDay (YearFromTime lt) (MonthFromTime lt) dt) (TimeWithinDay lt)))"

definition setMonth :: "int \<Rightarrow> timestamp \<Rightarrow> int \<Rightarrow> timestamp" where
  "setMonth tza t m =
     (let lt = LocalTime tza t
      in UTC tza (MakeDate (MakeDay (YearFromTime lt) m (DateFromTime lt)) (TimeWithinDay lt)))"

text \<open>\<open>setHours(0, 0, 0, 0)\<close>, the only way the helpers below call \<open>setHours\<close>.\<close>

definition setHoursZero :: "int \<Rightarrow> timestamp \<Rightarrow> timestamp" where
  "setHoursZero tza t = UTC tza (MakeDate (Day (LocalTime tza t)) (MakeTime 0 0 0 0))"

subsection \<open>The date-fns helpers\<close>

text \<open>
  \<open>addDays(date, amount)\<close> returns the date unchanged for amount 0 and otherwise calls
  \<open>setDate(getDate() + amount)\<close>.
\<close>

definition addDays :: "int \<Rightarrow> timestamp \<Rightarrow> int \<Rightarrow> timestamp" where
  "addDays tza date amount =
     (if amount = 0 then date else setDate tza date (getDate tza date + amount))"

definition startOfDay :: "int \<Rightarrow> timestamp \<Rightarrow> timestamp" where
  "startOfDay tza date = setHoursZero tza date"

definition isSameDay :: "int \<Rightarrow> timestamp \<Rightarrow> timestamp \<Rightarrow> bool" where
  "isSameDay tza l r = (startOfDay tza l = startOfDay tza r)"

definition isToday :: "int \<Rightarrow> timestamp \<Rightarrow> timestamp \<Rightarrow> bool" where
  "isToday tza now date = isSameDay tza date now"

definition isPast :: "timestamp \<Rightarrow> timestamp \<Rightarrow> bool" where
  "isPast now date = (date < now)"

text \<open>
  \<open>startOfWeek(date, options)\<close> takes the first day of the week from
  \<open>options.weekStartsOn\<close>, from the locale, from the default options, and at last 0
  (Sunday). The chore list calls \<open>isThisWeek\<close> with no options and the code base sets no
  default options, so \<open>weekStartsOn\<close> is 0 there.
\<close>

definition startOfWeek :: "int \<Rightarrow> int \<Rightarrow> timestamp \<Rightarrow> timestamp" where
  "startOfWeek tza weekStartsOn date =
     (let day = getDay tza date;
          diff = (if day < weekStartsOn then 7 else 0) + day - weekStartsOn
      in setHoursZero tza (setDate tza date (getDate tza date - diff)))"

definition isSameWeek :: "int \<Rightarrow> int \<Rightarrow> timestamp \<Rightarrow> timestamp \<Rightarrow> bool" where
  "isSameWeek tza weekStartsOn l r =
     (startOfWeek tza weekStartsOn l = startOfWeek tza weekStartsOn r)"

definition isThisWeek :: "int \<Rightarrow> timestamp \<Rightarrow> timestamp \<Rightarrow> bool" where
  "isThisWeek tza now date = isSameWeek tza 0 date now"

text \<open>
  The text \<open>format(d, "yyyy-MM-dd'T'HH:mm:ss")\<close> prints is kept as its six numbers: the local
  calendar fields, the month counted from 1, no milliseconds and no zone.
\<close>

record wallclock =
  wc_year :: int
  wc_month :: int
  wc_day :: int
  wc_hour :: int
  wc_minute :: int
  wc_second :: int

definition format_datetime :: "int \<Rightarrow> timestamp \<Rightarrow> wallclock" where
  "format_datetime tza date =
     (let lt = LocalTime tza date
      in \<lparr> wc_year = YearFromTime lt, wc_month = MonthFromTime lt + 1,
           wc_day = DateFromTime lt, wc_hour = HourFromTime lt,
           wc_minute = MinFromTime lt, wc_second = SecFromTime lt \<rparr>)"

text \<open>
  A date string is one of the two shapes the code produces: the text of \<open>toISOString()\<close>,
  which names an instant to the millisecond in UTC, or the zone-less text of \<open>format\<close>.
  \<open>new Date(s)\<close> reads the first as that instant and the second as local time.
\<close>

datatype datestring = UtcString timestamp | LocalString wallclock

definition toISOString :: "timestamp \<Rightarrow> datestring" where
  "toISOString t = UtcString t"

fun new_Date :: "int \<Rightarrow> datestring \<Rightarrow> timestamp" where
  "new_Date tza (UtcString t) = t"
| "new_Date tza (LocalString w) =
     UTC tza (MakeDate (MakeDay (wc_year w) (wc_month w - 1) (wc_day w))
                       (MakeTime (wc_hour w) (wc_minute w) (wc_second w) 0))"


section \<open>Chores\<close>

subsection \<open>Data\<close>

datatype frequency = Daily | Weekly | Monthly

text \<open>
  A value of the host language that may be missing: \<open>undefined\<close>, \<open>null\<close> or a value. A key
  whose value is \<open>undefined\<close> is left out of the JSON text sent to the store, so the store
  does not touch that column.
\<close>

datatype 'a js = Undefined | Null | Val 'a

fun nullable :: "'a option \<Rightarrow> 'a js" where
  "nullable None = Null"
| "nullable (Some v) = Val v"

text \<open>A number the index arithmetic can produce: a natural number, or \<open>NaN\<close> from \<open>x % 0\<close>.\<close>

datatype number = Num nat | NaN

definition js_rem :: "nat \<Rightarrow> nat \<Rightarrow> number" where
  "js_rem a b = (if b = 0 then NaN else Num (a mod b))"

text \<open>\<open>xs[i]\<close>: \<open>undefined\<close> outside the array.\<close>

definition array_get :: "'a list \<Rightarrow> nat \<Rightarrow> 'a js" where
  "array_get xs i = (if i < length xs then Val (xs ! i) else Undefined)"

text \<open>
  The fields of a chore that the form fills in (the argument type of \<open>createChore\<close>), and
  the chore row: those fields and the ones the context and the store add.
  \<open>current_assignee_index\<close> is a 0-based position in \<open>rotation_members\<close>: the form writes 0
  and a completion writes a remainder of a non-negative number, so it is a natural number.
  The two timestamp columns hold instants. The display names the provider attaches to a
  row (\<open>assignee_name\<close>, \<open>creator_name\<close>) are looked up in the list of family members, not
  stored; they are not part of the row.
\<close>

record chore_data =
  title :: string
  description :: "string option"
  frequency :: frequency
  assigned_to :: "string option"
  rotation :: bool
  rotation_members :: "string list option"
  current_assignee_index :: "nat option"

record chore = chore_data +
  chore_id :: string
  family_id :: string
  created_at :: timestamp
  created_by :: string
  next_due :: "timestamp option"
  last_completed :: "timestamp option"

text \<open>
  \<open>Partial<Chore>\<close>, the argument of \<open>updateChore\<close>, with the keys its two callers set. A key
  that is absent is \<open>None\<close> for a column that cannot be null and \<open>Undefined\<close> for one
  that can.
\<close>

record chore_updates =
  u_title :: "string option"
  u_description :: "string js"
  u_frequency :: "frequency option"
  u_assigned_to :: "string js"
  u_rotation :: "bool option"
  u_rotation_members :: "string list js"
  u_current_assignee_index :: "number js"
  u_next_due :: "datestring js"
  u_last_completed :: "datestring js"

definition no_updates :: chore_updates where
  "no_updates =
     \<lparr> u_title = None, u_description = Undefined, u_frequency = None,
       u_assigned_to = Undefined, u_rotation = None, u_rotation_members = Undefined,
       u_current_assignee_index = Undefined, u_next_due = Undefined,
       u_last_completed = Undefined \<rparr>"

subsection \<open>The store's row update\<close>

text \<open>
  The store is the table \<open>chores\<close> of \<open>supabase/schema.sql\<close>. An update first overwrites
  the columns whose keys are in the JSON text and leaves the others (\<open>set_columns\<close>); in
  JSON \<open>NaN\<close> is written \<open>null\<close>. Then the table's \<open>BEFORE UPDATE\<close> trigger
  \<open>chore_completed\<close> runs (\<open>update_next_due\<close>), and the row it returns is the row the store
  keeps and sends back.

  Two things depend on the time zone of the store's session, which the repository does
  not fix. How the store reads a zone-less date-time into a timestamp column is the
  parameter \<open>tsin\<close>. The session's offset from UTC, \<open>stz\<close> (milliseconds, constant), is the
  zone in which the trigger's \<open>+ INTERVAL\<close> counts days and months.
\<close>

fun set_required :: "'a option \<Rightarrow> 'a \<Rightarrow> 'a" where
  "set_required (Some v) old = v"
| "set_required None old = old"

fun set_nullable :: "'a js \<Rightarrow> 'a option \<Rightarrow> 'a option" where
  "set_nullable (Val v) old = Some v"
| "set_nullable Null old = None"
| "set_nullable Undefined old = old"

fun set_index :: "number js \<Rightarrow> nat option \<Rightarrow> nat option" where
  "set_index (Val (Num n)) old = Some n"
| "set_index (Val NaN) old = None"
| "set_index Null old = None"
| "set_index Undefined old = old"

fun set_timestamp :: "(wallclock \<Rightarrow> timestamp) \<Rightarrow> datestring js \<Rightarrow> timestamp option \<Rightarrow> timestamp option" where
  "set_timestamp tsin (Val (UtcString t)) old = Some t"
| "set_timestamp tsin (Val (LocalString w)) old = Some (tsin w)"
| "set_timestamp tsin Null old = None"
| "set_timestamp tsin Undefined old = old"

definition set_columns :: "(wallclock \<Rightarrow> timestamp) \<Rightarrow> chore_updates \<Rightarrow> chore \<Rightarrow> chore" where
  "set_columns tsin u row =
     row \<lparr> title := set_required (u_title u) (title row),
           description := set_nullable (u_description u) (description row),
           frequency := set_required (u_frequency u) (frequency row),
           assigned_to := set_nullable (u_assigned_to u) (assigned_to row),
           rotation := set_required (u_rotation u) (rotation row),
           rotation_members := set_nullable (u_rotation_members u) (rotation_members row),
           current_assignee_index :=
             set_index (u_current_assignee_index u) (current_assignee_index row),
           next_due := set_timestamp tsin (u_next_due u) (next_due row),
           last_completed := set_timestamp tsin (u_last_completed u) (last_completed row) \<rparr>"


text \<open>
  \<open>timestamptz + INTERVAL '1 month'\<close>: the same local time of day on the same day of the
  following month, or on that month's last day when it has no such day.
\<close>

definition plus_one_month :: "int \<Rightarrow> timestamp \<Rightarrow> timestamp" where
  "plus_one_month stz t =
     (let lt = LocalTime stz t;
          y = YearFromTime lt; m = MonthFromTime lt; d = DateFromTime lt;
          y1 = (if m = 11 then y + 1 else y);
          m1 = (if m = 11 then 0 else m + 1);
          d1 = min d (DaysInMonth y1 m1)
      in UTC stz (MakeDate (MakeDay y1 m1 d1) (TimeWithinDay lt)))"

text \<open>
  The \<open>CASE\<close> statement of the trigger: \<open>last_completed + INTERVAL '1 day'\<close>, \<open>'7 days'\<close> or
  \<open>'1 month'\<close>, by frequency. With a constant offset a day has 24 hours.
\<close>

definition plus_interval :: "int \<Rightarrow> timestamp \<Rightarrow> frequency \<Rightarrow> timestamp" where
  "plus_interval stz t freq =
     (case freq of
        Daily \<Rightarrow> t + 1 * msPerDay
      | Weekly \<Rightarrow> t + 7 * msPerDay
      | Monthly \<Rightarrow> plus_one_month stz t)"

text \<open>
  \<open>array_length(a, 1)\<close> is null for an empty array, and a comparison with null is not true.
  \<open>a[i]\<close> counts from 1 and is null outside the array.
\<close>

definition array_length :: "'a list \<Rightarrow> nat option" where
  "array_length a = (if a = [] then None else Some (length a))"

definition pg_array_get :: "'a list \<Rightarrow> nat \<Rightarrow> 'a option" where
  "pg_array_get a i = (if 1 \<le> i \<and> i \<le> length a then Some (a ! (i - 1)) else None)"

text \<open>
  The trigger function \<open>update_next_due\<close>, from the row before the update (\<open>OLD\<close>) and the
  row with the new column values (\<open>NEW\<close>) to the row that is stored.
\<close>

definition update_next_due :: "int \<Rightarrow> chore \<Rightarrow> chore \<Rightarrow> chore" where
  "update_next_due stz OLD NEW =
     (case last_completed NEW of
        None \<Rightarrow> NEW
      | Some lc \<Rightarrow>
          if last_completed OLD = None \<or> last_completed NEW \<noteq> last_completed OLD
          then
            let NEW1 = NEW \<lparr> next_due := Some (plus_interval stz lc (frequency NEW)) \<rparr>
            in (case rotation_members NEW1 of
                  None \<Rightarrow> NEW1
                | Some members \<Rightarrow>
                    (case array_length members of
                       None \<Rightarrow> NEW1
                     | Some n \<Rightarrow>
                         if rotation NEW1 \<and> n > 0
                         then
                           let idx = (case current_assignee_index NEW1 of
                                        None \<Rightarrow> 0
                                      | Some i \<Rightarrow> (i + 1) mod n)
                           in NEW1 \<lparr> current_assignee_index := Some idx,
                                     assigned_to := pg_array_get members (idx + 1) \<rparr>
                         else NEW1))
          else NEW)"

definition store_update :: "int \<Rightarrow> (wallclock \<Rightarrow> timestamp) \<Rightarrow> chore_updates \<Rightarrow> chore \<Rightarrow> chore" where
  "store_update stz tsin u row = update_next_due stz row (set_columns tsin u row)"


subsection \<open>The chores context\<close>

text \<open>
  \<open>calculateNextDueDate(frequency, lastCompleted)\<close>. The start date is \<open>lastCompleted\<close> when
  it is given and the current time otherwise; \<open>now\<close> is the clock reading. The default
  branch of the switch cannot be reached: \<open>frequency\<close> has three values.
\<close>

definition calculateNextDueDate :: "int \<Rightarrow> timestamp \<Rightarrow> frequency \<Rightarrow> datestring option \<Rightarrow> wallclock" where
  "calculateNextDueDate tza now freq lastCompleted =
     (let startDate = (case lastCompleted of Some s \<Rightarrow> new_Date tza s | None \<Rightarrow> now);
          nextDue = (case freq of
                       Daily \<Rightarrow> addDays tza startDate 1
                     | Weekly \<Rightarrow> addDays tza startDate 7
                     | Monthly \<Rightarrow> setMonth tza startDate (getMonth tza startDate + 1))
      in format_datetime tza nextDue)"

definition getNextAssignee :: "chore \<Rightarrow> string js" where
  "getNextAssignee c =
     (case rotation_members c of
        None \<Rightarrow> nullable (assigned_to c)
      | Some members \<Rightarrow>
          if \<not> rotation c \<or> length members = 0 then nullable (assigned_to c)
          else
            let nextIndex = (case current_assignee_index c of
                               Some i \<Rightarrow> (i + 1) mod length members
                             | None \<Rightarrow> 0)
            in array_get members nextIndex)"

text \<open>The index expression of \<open>completeChore\<close> (lines 290 to 294).\<close>

definition nextAssigneeIndex :: "chore \<Rightarrow> number js" where
  "nextAssigneeIndex c =
     (case rotation_members c of
        None \<Rightarrow> nullable (map_option Num (current_assignee_index c))
      | Some members \<Rightarrow>
          if rotation c
          then (case current_assignee_index c of
                  Some i \<Rightarrow> Val (js_rem (i + 1) (length members))
                | None \<Rightarrow> Val (Num 0))
          else nullable (map_option Num (current_assignee_index c)))"

text \<open>
  One rotation step on a chore: the chore with the assignee and the index replaced by the
  values that \<open>getNextAssignee\<close> and the index expression compute from it, written as an
  update writes the two keys \<open>assigned_to\<close> and \<open>current_assignee_index\<close>.
\<close>

definition advance :: "chore \<Rightarrow> chore" where
  "advance c =
     c \<lparr> assigned_to := set_nullable (getNextAssignee c) (assigned_to c),
         current_assignee_index := set_index (nextAssigneeIndex c) (current_assignee_index c) \<rparr>"

datatype error =
    NotAuthenticatedOrNoFamily
  | NoFamilySelected
  | ChoreNotFound
  | TodoNotFound
  | StoreError

text \<open>
  The state of the provider: the chores it holds, the signed-in user and the selected
  family, both by id. The store's table is taken to be the list the provider holds: an
  update finds its row there by id and family (\<open>.eq('id', id).eq('family_id', ...)\<close>), and
  fails when there is none (\<open>.single()\<close>). Other failures of the store (network, access
  policy) are not modelled.
\<close>

record chores_state =
  chores :: "chore list"
  user :: "string option"
  currentFamily :: "string option"

definition chore_of_data :: "chore_data \<Rightarrow> string \<Rightarrow> string \<Rightarrow> timestamp \<Rightarrow> string
    \<Rightarrow> timestamp option \<Rightarrow> timestamp option \<Rightarrow> chore" where
  "chore_of_data d cid fam created uid due done =
     \<lparr> title = title d, description = description d, frequency = frequency d,
       assigned_to = assigned_to d, rotation = rotation d,
       rotation_members = rotation_members d,
       current_assignee_index = current_assignee_index d,
       chore_id = cid, family_id = fam, created_at = created, created_by = uid,
       next_due = due, last_completed = done \<rparr>"

text \<open>
  \<open>createChore(chore)\<close>. The store gives the new row its id (\<open>new_id\<close>) and its creation
  time (the clock reading).
\<close>

definition createChore :: "int \<Rightarrow> (wallclock \<Rightarrow> timestamp) \<Rightarrow> timestamp \<Rightarrow> string
    \<Rightarrow> chores_state \<Rightarrow> chore_data \<Rightarrow> error + chore \<times> chores_state" where
  "createChore tza tsin now new_id st d =
     (case (user st, currentFamily st) of
        (Some uid, Some fam) \<Rightarrow>
          let nextDue = calculateNextDueDate tza now (frequency d) None;
              newChore = chore_of_data d new_id fam now uid (Some (tsin nextDue)) None
          in Inr (newChore, st \<lparr> chores := chores st @ [newChore] \<rparr>)
      | _ \<Rightarrow> Inl NotAuthenticatedOrNoFamily)"

definition updateChore :: "int \<Rightarrow> (wallclock \<Rightarrow> timestamp) \<Rightarrow> chores_state \<Rightarrow> string
    \<Rightarrow> chore_updates \<Rightarrow> error + chore \<times> chores_state" where
  "updateChore stz tsin st cid updates =
     (case currentFamily st of
        None \<Rightarrow> Inl NoFamilySelected
      | Some fam \<Rightarrow>
          (case find (\<lambda>r. chore_id r = cid \<and> family_id r = fam) (chores st) of
             None \<Rightarrow> Inl StoreError
           | Some row \<Rightarrow>
               let updatedChore = store_update stz tsin updates row
               in Inr (updatedChore,
                       st \<lparr> chores := map (\<lambda>c. if chore_id c = cid then updatedChore else c)
                                           (chores st) \<rparr>)))"

text \<open>The \<open>updates\<close> object of \<open>completeChore\<close> (lines 285 to 301).\<close>

definition completion_updates :: "int \<Rightarrow> timestamp \<Rightarrow> chore \<Rightarrow> chore_updates" where
  "completion_updates tza now_time c =
     (let now = toISOString now_time;
          nextDue = calculateNextDueDate tza now_time (frequency c) (Some now);
          nextAssignee = getNextAssignee c
      in no_updates \<lparr> u_last_completed := Val now,
                      u_next_due := Val (LocalString nextDue),
                      u_assigned_to := nextAssignee,
                      u_current_assignee_index := nextAssigneeIndex c \<rparr>)"

definition completeChore :: "int \<Rightarrow> int \<Rightarrow> (wallclock \<Rightarrow> timestamp) \<Rightarrow> timestamp
    \<Rightarrow> chores_state \<Rightarrow> string \<Rightarrow> error + chore \<times> chores_state" where
  "completeChore tza stz tsin now_time st cid =
     (case find (\<lambda>c. chore_id c = cid) (chores st) of
        None \<Rightarrow> Inl ChoreNotFound
      | Some c \<Rightarrow> updateChore stz tsin st cid (completion_updates tza now_time c))"


subsection \<open>The chore form\<close>

text \<open>
  The state of the form component and the two properties that decide what a submission
  calls. \<open>errors\<close> is the \<open>Record<string, string>\<close> the form renders from: the message
  under key \<open>title\<close> is shown below the title input, the one under \<open>rotation\<close> below the
  list of rotation members, the one under \<open>submit\<close> above the buttons.
\<close>

record chore_form =
  f_title :: string
  f_description :: string
  f_frequency :: frequency
  f_rotation :: bool
  f_assignedTo :: "string option"
  f_rotationMembers :: "string list"
  f_errors :: "(string \<times> string) list"
  f_isEditing :: bool
  f_initial_id :: "string option"
  f_closed :: bool

text \<open>
  \<open>String.prototype.trim\<close> removes white space from both ends. A character is a code unit
  below 256; the white space among those is tab, line feed, vertical tab, form feed,
  carriage return, space and no-break space.
\<close>

definition is_white_space :: "char \<Rightarrow> bool" where
  "is_white_space ch =
     (ch \<in> set [CHR 0x09, CHR 0x0A, CHR 0x0B, CHR 0x0C, CHR 0x0D, CHR 0x20, CHR 0xA0])"

definition trim :: "string \<Rightarrow> string" where
  "trim s = rev (dropWhile is_white_space (rev (dropWhile is_white_space s)))"

definition validateForm :: "chore_form \<Rightarrow> (string \<times> string) list" where
  "validateForm f =
     (if trim (f_title f) = [] then [(''title'', ''Title is required'')] else []) @
     (if f_rotation f \<and> length (f_rotationMembers f) < 2
      then [(''rotation'', ''Rotation requires at least 2 family members'')] else [])"

definition choreData :: "chore_form \<Rightarrow> chore_data" where
  "choreData f =
     \<lparr> title = f_title f,
       description = (if f_description f = [] then None else Some (f_description f)),
       frequency = f_frequency f,
       assigned_to = (if f_rotation f then None else f_assignedTo f),
       rotation = f_rotation f,
       rotation_members = (if f_rotation f then Some (f_rotationMembers f) else None),
       current_assignee_index = (if f_rotation f then Some 0 else None) \<rparr>"

text \<open>The same object passed to \<open>updateChore\<close>: every one of its seven keys is present.\<close>

definition updates_of_data :: "chore_data \<Rightarrow> chore_updates" where
  "updates_of_data d =
     no_updates \<lparr> u_title := Some (title d),
                  u_description := nullable (description d),
                  u_frequency := Some (frequency d),
                  u_assigned_to := nullable (assigned_to d),
                  u_rotation := Some (rotation d),
                  u_rotation_members := nullable (rotation_members d),
                  u_current_assignee_index :=
                    nullable (map_option Num (current_assignee_index d)) \<rparr>"

text \<open>
  \<open>handleSubmit\<close>. The result is the form, the provider's state and the calls made to the
  context, in order. A failed call is caught and reported under the key \<open>submit\<close>.
\<close>

datatype context_call = CreateChoreCall chore_data | UpdateChoreCall string chore_updates

text \<open>\<open>isEditing && initialData?.id\<close>: the id of the chore being edited, if any.\<close>

definition editing_target :: "chore_form \<Rightarrow> string option" where
  "editing_target f =
     (case f_initial_id f of
        Some i \<Rightarrow> if f_isEditing f \<and> i \<noteq> [] then Some i else None
      | None \<Rightarrow> None)"

definition handleSubmit :: "int \<Rightarrow> int \<Rightarrow> (wallclock \<Rightarrow> timestamp) \<Rightarrow> timestamp \<Rightarrow> string
    \<Rightarrow> chores_state \<Rightarrow> chore_form \<Rightarrow> chore_form \<times> chores_state \<times> context_call list" where
  "handleSubmit tza stz tsin now new_id st f =
     (let newErrors = validateForm f; f1 = f \<lparr> f_errors := newErrors \<rparr>
      in if newErrors \<noteq> [] then (f1, st, [])
         else
           (case editing_target f of
              Some i \<Rightarrow>
                (case updateChore stz tsin st i (updates_of_data (choreData f)) of
                   Inr (saved, st') \<Rightarrow>
                     (f1 \<lparr> f_closed := True \<rparr>, st',
                      [UpdateChoreCall i (updates_of_data (choreData f))])
                 | Inl e \<Rightarrow>
                     (f1 \<lparr> f_errors := [(''submit'', ''Failed to save chore'')] \<rparr>, st,
                      [UpdateChoreCall i (updates_of_data (choreData f))]))
            | None \<Rightarrow>
                (case createChore tza tsin now new_id st (choreData f) of
                   Inr (saved, st') \<Rightarrow>
                     (f1 \<lparr> f_closed := True \<rparr>, st', [CreateChoreCall (choreData f)])
                 | Inl e \<Rightarrow>
                     (f1 \<lparr> f_errors := [(''submit'', ''Failed to save chore'')] \<rparr>, st,
                      [CreateChoreCall (choreData f)]))))"

section \<open>The chore list: grouping by status\<close>

datatype chore_group = Overdue | DueToday | Upcoming | RecentlyCompleted

text \<open>
  The body of the \<open>forEach\<close> in \<open>groupChoresByStatus\<close>: the group a chore is pushed to.
  \<open>isThisWeek\<close>, \<open>isPast\<close> and \<open>isToday\<close> each read the clock; the three readings are
  taken to be the same instant \<open>now\<close>.
\<close>

definition group_of :: "int \<Rightarrow> timestamp \<Rightarrow> chore \<Rightarrow> chore_group" where
  "group_of tza now c =
     (if (case last_completed c of Some lc \<Rightarrow> isThisWeek tza now lc | None \<Rightarrow> False)
      then RecentlyCompleted
      else case next_due c of
             None \<Rightarrow> Upcoming
           | Some dueDate \<Rightarrow>
               if isPast now dueDate \<and> \<not> isToday tza now dueDate then Overdue
               else if isToday tza now dueDate then DueToday
               else Upcoming)"

record grouped_chores =
  label :: string
  group_chores :: "chore list"

definition groupChoresByStatus :: "int \<Rightarrow> timestamp \<Rightarrow> chore list \<Rightarrow> grouped_chores list" where
  "groupChoresByStatus tza now sortedChores =
     filter (\<lambda>g. length (group_chores g) > 0)
       [ \<lparr> label = ''Overdue'',
           group_chores = filter (\<lambda>c. group_of tza now c = Overdue) sortedChores \<rparr>,
         \<lparr> label = ''Due Today'',
           group_chores = filter (\<lambda>c. group_of tza now c = DueToday) sortedChores \<rparr>,
         \<lparr> label = ''Upcoming'',
           group_chores = filter (\<lambda>c. group_of tza now c = Upcoming) sortedChores \<rparr>,
         \<lparr> label = ''Recently Completed'',
           group_chores = filter (\<lambda>c. group_of tza now c = RecentlyCompleted) sortedChores \<rparr> ]"


text \<open>
  Calendar weeks as the specification speaks of them, for comparison with \<open>isThisWeek\<close>:
  \<open>week_start_day w d\<close> is the latest day, on or before day number \<open>d\<close>, whose week day
  is \<open>w\<close> (0 Sunday, 1 Monday), and \<open>t\<close> is in the calendar week of \<open>now\<close> that starts on
  week day \<open>w\<close> when its local day is one of the seven days from there.
\<close>

definition week_start_day :: "int \<Rightarrow> int \<Rightarrow> int" where
  "week_start_day weekStartsOn day = day - (day + 4 - weekStartsOn) mod 7"

definition in_calendar_week :: "int \<Rightarrow> int \<Rightarrow> timestamp \<Rightarrow> timestamp \<Rightarrow> bool" where
  "in_calendar_week tza weekStartsOn now t =
     (let s = week_start_day weekStartsOn (Day (LocalTime tza now)); d = Day (LocalTime tza t)
      in s \<le> d \<and> d \<le> s + 6)"

section \<open>To-dos\<close>

datatype priority = Low | Medium | High

datatype todo_status = Pending | InProgress | Completed

record todo =
  todo_id :: string
  todo_family_id :: string
  todo_title :: string
  todo_description :: "string option"
  due_date :: "timestamp option"
  priority :: priority
  status :: todo_status
  todo_assigned_to :: "string option"
  todo_created_at :: timestamp
  todo_created_by :: string

text \<open>\<open>Partial<Todo>\<close>, the argument of \<open>updateTodo\<close>.\<close>

record todo_updates =
  tu_title :: "string option"
  tu_description :: "string js"
  tu_due_date :: "datestring js"
  tu_priority :: "priority option"
  tu_status :: "todo_status option"
  tu_assigned_to :: "string js"

definition no_todo_updates :: todo_updates where
  "no_todo_updates =
     \<lparr> tu_title = None, tu_description = Undefined, tu_due_date = Undefined,
       tu_priority = None, tu_status = None, tu_assigned_to = Undefined \<rparr>"

definition store_update_todo :: "(wallclock \<Rightarrow> timestamp) \<Rightarrow> todo_updates \<Rightarrow> todo \<Rightarrow> todo" where
  "store_update_todo tsin u row =
     row \<lparr> todo_title := set_required (tu_title u) (todo_title row),
           todo_description := set_nullable (tu_description u) (todo_description row),
           due_date := set_timestamp tsin (tu_due_date u) (due_date row),
           priority := set_required (tu_priority u) (priority row),
           status := set_required (tu_status u) (status row),
           todo_assigned_to := set_nullable (tu_assigned_to u) (todo_assigned_to row) \<rparr>"

record todos_state =
  todos :: "todo list"
  todos_currentFamily :: "string option"

definition updateTodo :: "(wallclock \<Rightarrow> timestamp) \<Rightarrow> todos_state \<Rightarrow> string \<Rightarrow> todo_updates
    \<Rightarrow> error + todo \<times> todos_state" where
  "updateTodo tsin st tid updates =
     (case todos_currentFamily st of
        None \<Rightarrow> Inl NoFamilySelected
      | Some fam \<Rightarrow>
          (case find (\<lambda>r. todo_id r = tid \<and> todo_family_id r = fam) (todos st) of
             None \<Rightarrow> Inl StoreError
           | Some row \<Rightarrow>
               let updatedTodo = store_update_todo tsin updates row
               in Inr (updatedTodo,
                       st \<lparr> todos := map (\<lambda>t. if todo_id t = tid then updatedTodo else t)
                                          (todos st) \<rparr>)))"

definition toggleTodoStatus :: "(wallclock \<Rightarrow> timestamp) \<Rightarrow> todos_state \<Rightarrow> string
    \<Rightarrow> error + todo \<times> todos_state" where
  "toggleTodoStatus tsin st tid =
     (case find (\<lambda>t. todo_id t = tid) (todos st) of
        None \<Rightarrow> Inl TodoNotFound
      | Some t \<Rightarrow>
          let newStatus = (if status t = Completed then Pending else Completed)
          in updateTodo tsin st tid (no_todo_updates \<lparr> tu_status := Some newStatus \<rparr>))"


section \<open>States the operations produce\<close>



section \<open>Worked examples\<close>

text \<open>
  The chore of the specification's scenario (a weekly chore rotating over alice, bob and
  carol, at position 1), a provider state that holds one chore, a store whose session
  runs in UTC (it reads a zone-less date-time as UTC), a to-do in progress, a form filled
  in for a new chore rotating over alice and bob, and a provider that holds no chore.
\<close>

definition ex_chore :: chore where
  "ex_chore =
     \<lparr> title = ''Dishes'', description = None, frequency = Weekly,
       assigned_to = Some ''bob'', rotation = True,
       rotation_members = Some [''alice'', ''bob'', ''carol''],
       current_assignee_index = Some 1,
       chore_id = ''c1'', family_id = ''f1'', created_at = 0, created_by = ''alice'',
       next_due = None, last_completed = None \<rparr>"

definition ex_state :: "chore \<Rightarrow> chores_state" where
  "ex_state c = \<lparr> chores = [c], user = Some ''alice'', currentFamily = Some ''f1'' \<rparr>"

definition utc_session :: "wallclock \<Rightarrow> timestamp" where
  "utc_session w = new_Date 0 (LocalString w)"

definition ex_todo :: todo where
  "ex_todo =
     \<lparr> todo_id = ''t1'', todo_family_id = ''f1'', todo_title = ''Buy milk'',
       todo_description = None, due_date = None, priority = Medium, status = InProgress,
       todo_assigned_to = None, todo_created_at = 0, todo_created_by = ''alice'' \<rparr>"

definition ex_form :: chore_form where
  "ex_form =
     \<lparr> f_title = ''Dishes'', f_description = [], f_frequency = Weekly, f_rotation = True,
       f_assignedTo = None, f_rotationMembers = [''alice'', ''bob''], f_errors = [],
       f_isEditing = False, f_initial_id = None, f_closed = False \<rparr>"

definition ex_empty_state :: chores_state where
  "ex_empty_state = \<lparr> chores = [], user = Some ''alice'', currentFamily = Some ''f1'' \<rparr>"

section \<open>Properties of the chore completion and of the to-do toggle\<close>

subsection \<open>Auxiliary facts\<close>

lemma find_conj:
  "find P xs = Some x \<Longrightarrow> Q x \<Longrightarrow> find (\<lambda>r. P r \<and> Q r) xs = Some x"
  by (induction xs) (auto split: if_splits)

lemma set_nullable_nullable [simp]: "set_nullable (nullable v) old = v"
  by (cases v) simp_all

lemma set_index_nullable [simp]: "set_index (nullable (map_option Num i)) old = i"
  by (cases i) simp_all

lemma updateChore_found:
  assumes "find (\<lambda>c. chore_id c = cid) (chores st) = Some c"
    and "currentFamily st = Some (family_id c)"
  shows "updateChore stz tsin st cid u =
           Inr (store_update stz tsin u c,
                st \<lparr> chores := map (\<lambda>x. if chore_id x = cid then store_update stz tsin u c else x)
                                    (chores st) \<rparr>)"
proof -
  have "find (\<lambda>r. chore_id r = cid \<and> family_id r = family_id c) (chores st) = Some c"
    using assms(1) by (rule find_conj) simp
  then show ?thesis
    by (simp add: updateChore_def assms(2) Let_def)
qed

lemma rotation_step:
  assumes "rotation c" and "rotation_members c = Some ms" and "ms \<noteq> []"
  shows "getNextAssignee c =
           Val (ms ! (case current_assignee_index c of None \<Rightarrow> 0 | Some i \<Rightarrow> (i + 1) mod length ms))"
    and "nextAssigneeIndex c =
           Val (Num (case current_assignee_index c of None \<Rightarrow> 0 | Some i \<Rightarrow> (i + 1) mod length ms))"
  using assms
  by (auto simp: getNextAssignee_def nextAssigneeIndex_def array_get_def js_rem_def Let_def
           split: option.splits)

lemma no_rotation_step:
  assumes "\<not> rotation c \<or> rotation_members c = None"
  shows "getNextAssignee c = nullable (assigned_to c)"
    and "nextAssigneeIndex c = nullable (map_option Num (current_assignee_index c))"
  using assms
  by (auto simp: getNextAssignee_def nextAssigneeIndex_def split: option.splits)

lemma pg_array_get_nth: "k < length ms \<Longrightarrow> pg_array_get ms (Suc k) = Some (ms ! k)"
  by (simp add: pg_array_get_def)

lemma trigger_idle:
  "last_completed NEW = last_completed OLD \<Longrightarrow> update_next_due stz OLD NEW = NEW"
  by (simp add: update_next_due_def split: option.splits)


lemma set_columns_completion:
  "set_columns tsin (completion_updates tza now c) c =
     c \<lparr> assigned_to := set_nullable (getNextAssignee c) (assigned_to c),
         current_assignee_index := set_index (nextAssigneeIndex c) (current_assignee_index c),
         next_due := Some (tsin (calculateNextDueDate tza now (frequency c) (Some (toISOString now)))),
         last_completed := Some now \<rparr>"
  by (simp add: set_columns_def completion_updates_def no_updates_def Let_def toISOString_def)

lemma trigger_rotation:
  assumes "rotation c" and "rotation_members c = Some ms" and "ms \<noteq> []"
    and "last_completed c \<noteq> Some now"
  shows "update_next_due stz c
           (c \<lparr> assigned_to := a, current_assignee_index := Some k, next_due := d,
                last_completed := Some now \<rparr>) =
         c \<lparr> assigned_to := Some (ms ! ((k + 1) mod length ms)),
             current_assignee_index := Some ((k + 1) mod length ms),
             next_due := Some (plus_interval stz now (frequency c)),
             last_completed := Some now \<rparr>"
  using assms
  by (cases c) (auto simp add: update_next_due_def array_length_def pg_array_get_nth Let_def)

lemma trigger_without_rotation:
  assumes "\<not> rotation c \<or> rotation_members c = None"
    and "last_completed c \<noteq> Some now"
  shows "update_next_due stz c (c \<lparr> next_due := d, last_completed := Some now \<rparr>) =
         c \<lparr> next_due := Some (plus_interval stz now (frequency c)), last_completed := Some now \<rparr>"
  using assms
  by (cases c) (auto simp add: update_next_due_def array_length_def Let_def split: option.splits)

lemma completion_rotation:
  assumes "rotation c" and "rotation_members c = Some ms" and "ms \<noteq> []"
  shows "store_update stz tsin (completion_updates tza now c) c =
     (let k = (case current_assignee_index c of None \<Rightarrow> 0 | Some i \<Rightarrow> (i + 1) mod length ms)
      in if last_completed c = Some now
         then c \<lparr> assigned_to := Some (ms ! k),
                  current_assignee_index := Some k,
                  next_due := Some (tsin (calculateNextDueDate tza now (frequency c) (Some (toISOString now)))),
                  last_completed := Some now \<rparr>
         else c \<lparr> assigned_to := Some (ms ! ((k + 1) mod length ms)),
                  current_assignee_index := Some ((k + 1) mod length ms),
                  next_due := Some (plus_interval stz now (frequency c)),
                  last_completed := Some now \<rparr>)"
proof -
  define k where "k = (case current_assignee_index c of None \<Rightarrow> 0 | Some i \<Rightarrow> (i + 1) mod length ms)"
  define d where "d = Some (tsin (calculateNextDueDate tza now (frequency c) (Some (toISOString now))))"
  have s: "set_columns tsin (completion_updates tza now c) c =
      c \<lparr> assigned_to := Some (ms ! k), current_assignee_index := Some k, next_due := d,
          last_completed := Some now \<rparr>"
    by (simp add: set_columns_completion rotation_step [OF assms] k_def d_def)
  show ?thesis
  proof (cases "last_completed c = Some now")
    case True
    then show ?thesis
      unfolding Let_def k_def [symmetric] d_def [symmetric]
      by (simp add: store_update_def s trigger_idle)
  next
    case False
    then show ?thesis
      unfolding Let_def k_def [symmetric] d_def [symmetric]
      by (simp add: store_update_def s trigger_rotation [OF assms False])
  qed
qed

lemma completion_without_rotation:
  assumes "\<not> rotation c \<or> rotation_members c = None"
  shows "store_update stz tsin (completion_updates tza now c) c =
     c \<lparr> next_due := Some (if last_completed c = Some now
                           then tsin (calculateNextDueDate tza now (frequency c) (Some (toISOString now)))
                           else plus_interval stz now (frequency c)),
         last_completed := Some now \<rparr>"
proof -
  define d where "d = Some (tsin (calculateNextDueDate tza now (frequency c) (Some (toISOString now))))"
  have s: "set_columns tsin (completion_updates tza now c) c =
      c \<lparr> next_due := d, last_completed := Some now \<rparr>"
    by (simp add: set_columns_completion no_rotation_step [OF assms] d_def)
  show ?thesis
  proof (cases "last_completed c = Some now")
    case True
    then show ?thesis
      by (simp add: store_update_def s trigger_idle d_def)
  next
    case False
    then show ?thesis
      by (simp add: store_update_def s trigger_without_rotation [OF assms False])
  qed
qed

lemma completeChore_found:
  assumes "find (\<lambda>c. chore_id c = cid) (chores st) = Some c"
    and "currentFamily st = Some (family_id c)"
  shows "completeChore tza stz tsin now st cid =
      Inr (store_update stz tsin (completion_updates tza now c) c,
           st \<lparr> chores := map (\<lambda>x. if chore_id x = cid
                  then store_update stz tsin (completion_updates tza now c) c else x) (chores st) \<rparr>)"
  by (simp add: completeChore_def assms(1) updateChore_found [OF assms])

lemma scenario_plus_interval: "plus_interval 0 1718010000000 Weekly = 1718614800000"
  by (simp add: plus_interval_def msPerDay_def)


lemma advance_rotation:
  assumes "rotation c" and "rotation_members c = Some ms" and "ms \<noteq> []"
  shows "advance c =
     c \<lparr> assigned_to :=
           Some (ms ! (case current_assignee_index c of None \<Rightarrow> 0 | Some i \<Rightarrow> (i + 1) mod length ms)),
         current_assignee_index :=
           Some (case current_assignee_index c of None \<Rightarrow> 0 | Some i \<Rightarrow> (i + 1) mod length ms) \<rparr>"
  by (simp add: advance_def rotation_step [OF assms])

lemma advance_iterated:
  assumes "rotation c" and "rotation_members c = Some ms" and "ms \<noteq> []"
    and "current_assignee_index c = Some i" and "i < length ms"
  shows "rotation ((advance ^^ n) c)
       \<and> rotation_members ((advance ^^ n) c) = Some ms
       \<and> current_assignee_index ((advance ^^ n) c) = Some ((i + n) mod length ms)
       \<and> assigned_to ((advance ^^ n) c) =
           (if n = 0 then assigned_to c else Some (ms ! ((i + n) mod length ms)))"
proof (induction n)
  case 0
  show ?case using assms by simp
next
  case (Suc n)
  let ?d = "(advance ^^ n) c"
  have r: "rotation ?d" and m: "rotation_members ?d = Some ms"
    and ix: "current_assignee_index ?d = Some ((i + n) mod length ms)"
    using Suc.IH by simp_all
  have e: "(Suc ((i + n) mod length ms)) mod length ms = Suc (i + n) mod length ms"
    by (simp add: mod_Suc_eq)
  show ?case
    using r m by (simp add: advance_rotation [OF r m assms(3)] ix e)
qed

lemma mod_shift_neq:
  fixes i j n :: nat
  assumes "i < n" and "0 < j" and "j < n"
  shows "(i + j) mod n \<noteq> i"
proof (cases "i + j < n")
  case True
  then show ?thesis using assms(2) by simp
next
  case False
  then have "(i + j) mod n = i + j - n"
    using assms by (simp add: mod_if)
  then show ?thesis using assms False by simp
qed

subsection \<open>Completing a rotating chore\<close>

text \<open>
  The row that the completion of a rotating chore stores and returns. \<open>completeChore\<close>
  computes the next position \<open>k\<close> and its member and sends them with the two dates; the
  update changes \<open>last_completed\<close> (unless the chore was last completed at this very
  instant), so the trigger runs: it replaces \<open>next_due\<close> by its own sum and moves the
  index on from \<open>k\<close>, the value it received, to \<open>(k + 1) mod length\<close>. The chore ends two
  positions on from where it was.
\<close>

lemma completeChore_rotating:
  assumes "find (\<lambda>c. chore_id c = cid) (chores st) = Some c"
    and "currentFamily st = Some (family_id c)"
    and "rotation c"
    and "rotation_members c = Some ms"
    and "ms \<noteq> []"
    and "last_completed c \<noteq> Some now"
  shows "let k = (case current_assignee_index c of None \<Rightarrow> 0 | Some i \<Rightarrow> (i + 1) mod length ms);
             k2 = (k + 1) mod length ms;
             c' = c \<lparr> assigned_to := Some (ms ! k2),
                      current_assignee_index := Some k2,
                      next_due := Some (plus_interval stz now (frequency c)),
                      last_completed := Some now \<rparr>
         in completeChore tza stz tsin now st cid =
              Inr (c', st \<lparr> chores := map (\<lambda>x. if chore_id x = cid then c' else x) (chores st) \<rparr>)"
  using assms(6)
  by (simp add: completeChore_found [OF assms(1,2)] completion_rotation [OF assms(3,4,5)] Let_def)

text \<open>
  Claim C1 says that completing a rotating chore writes the member at the next position,
  and that the chore of its scenario (weekly, members alice, bob, carol, index 1, never
  completed), completed at 2024-06-10T09:00:00Z (1718010000000), ends with
  \<open>last_completed\<close> at that instant, \<open>next_due\<close> at 2024-06-17T09:00:00Z (1718614800000),
  index 2 and assignee carol. With host and store in UTC the two dates are as claimed, and
  \<open>completeChore\<close> computes index 2 and carol, but the row that is stored and returned
  has index 0 and assignee alice: the trigger of the store advanced the rotation a second
  time.
\<close>

theorem completeChore_scenario_advances_twice:
  "(case completeChore 0 0 utc_session 1718010000000 (ex_state ex_chore) ''c1'' of
      Inr (c', st') \<Rightarrow>
        last_completed c' = Some 1718010000000 \<and> next_due c' = Some 1718614800000 \<and>
        current_assignee_index c' = Some 0 \<and> assigned_to c' = Some ''alice'' \<and>
        current_assignee_index c' \<noteq> Some 2 \<and> assigned_to c' \<noteq> Some ''carol''
    | Inl e \<Rightarrow> False)
   \<and> current_assignee_index
         (set_columns utc_session (completion_updates 0 1718010000000 ex_chore) ex_chore) = Some 2
   \<and> assigned_to
         (set_columns utc_session (completion_updates 0 1718010000000 ex_chore) ex_chore) = Some ''carol''"
proof -
  have h: "find (\<lambda>x. chore_id x = ''c1'') (chores (ex_state ex_chore)) = Some ex_chore"
    "currentFamily (ex_state ex_chore) = Some (family_id ex_chore)"
    by (simp_all add: ex_state_def ex_chore_def)
  have r: "rotation ex_chore" by (simp add: ex_chore_def)
  have m: "rotation_members ex_chore = Some [''alice'', ''bob'', ''carol'']"
    by (simp add: ex_chore_def)
  have n: "[''alice'', ''bob'', ''carol''] \<noteq> []" by simp
  have i: "current_assignee_index ex_chore = Some 1" "frequency ex_chore = Weekly"
    "last_completed ex_chore = None"
    by (simp_all add: ex_chore_def)
  have s: "nextAssigneeIndex ex_chore = Val (Num 2)" "getNextAssignee ex_chore = Val ''carol''"
    by (simp_all add: rotation_step [OF r m n] i)
  show ?thesis
    by (simp add: completeChore_found [OF h] completion_rotation [OF r m n] i s
          set_columns_completion scenario_plus_interval Let_def)
qed

subsection \<open>The rotation step\<close>

text \<open>
  Claim C4. For a rotating chore with a non-empty list of members, the rotation step maps
  a null index to position 0 and the first member, and an index \<open>i\<close> to position
  \<open>(i + 1) mod length\<close> and the member there. From a valid index \<open>i\<close>, \<open>j\<close> steps lead to
  position \<open>(i + j) mod length\<close> and the member there: \<open>length\<close> steps lead back to \<open>i\<close>,
  and fewer steps (at least one) lead elsewhere.
\<close>

theorem rotation_advance:
  assumes "rotation c" and "rotation_members c = Some ms" and "ms \<noteq> []"
  shows "nextAssigneeIndex c =
           Val (Num (case current_assignee_index c of None \<Rightarrow> 0 | Some i \<Rightarrow> (i + 1) mod length ms))
       \<and> getNextAssignee c =
           Val (ms ! (case current_assignee_index c of None \<Rightarrow> 0 | Some i \<Rightarrow> (i + 1) mod length ms))
       \<and> (\<forall>i. current_assignee_index c = Some i \<and> i < length ms \<longrightarrow>
            current_assignee_index ((advance ^^ length ms) c) = Some i)
       \<and> (\<forall>i j. current_assignee_index c = Some i \<and> i < length ms \<longrightarrow>
            current_assignee_index ((advance ^^ j) c) = Some ((i + j) mod length ms)
            \<and> (0 < j \<longrightarrow> assigned_to ((advance ^^ j) c) = Some (ms ! ((i + j) mod length ms)))
            \<and> (0 < j \<and> j < length ms \<longrightarrow> current_assignee_index ((advance ^^ j) c) \<noteq> Some i))"
proof -
  have a: "current_assignee_index ((advance ^^ j) c) = Some ((i + j) mod length ms)"
    and b: "0 < j \<Longrightarrow> assigned_to ((advance ^^ j) c) = Some (ms ! ((i + j) mod length ms))"
    if "current_assignee_index c = Some i" "i < length ms" for i j
    using advance_iterated [OF assms that, of j] by simp_all
  have d: "current_assignee_index ((advance ^^ j) c) \<noteq> Some i"
    if "current_assignee_index c = Some i" "i < length ms" "0 < j" "j < length ms" for i j
    using a [OF that(1,2), of j] mod_shift_neq [OF that(2,3,4)] by simp
  have e: "current_assignee_index ((advance ^^ length ms) c) = Some i"
    if "current_assignee_index c = Some i" "i < length ms" for i
    using a [OF that, of "length ms"] that(2) by simp
  show ?thesis
    using rotation_step [OF assms] a b d e by blast
qed

text \<open>
  Claim C4 on members A, B, C (here alice, bob, carol): the step gives (0, alice) from
  index 2 and from null, and (1, bob) from index 0; from index 2, one step leads to 0 and
  alice, two steps to 1, three steps back to 2.
\<close>

theorem rotation_advance_wraps:
  "nextAssigneeIndex (ex_chore \<lparr> current_assignee_index := Some 2 \<rparr>) = Val (Num 0)
   \<and> getNextAssignee (ex_chore \<lparr> current_assignee_index := Some 2 \<rparr>) = Val ''alice''
   \<and> nextAssigneeIndex (ex_chore \<lparr> current_assignee_index := None \<rparr>) = Val (Num 0)
   \<and> getNextAssignee (ex_chore \<lparr> current_assignee_index := None \<rparr>) = Val ''alice''
   \<and> nextAssigneeIndex (ex_chore \<lparr> current_assignee_index := Some 0 \<rparr>) = Val (Num 1)
   \<and> getNextAssignee (ex_chore \<lparr> current_assignee_index := Some 0 \<rparr>) = Val ''bob''
   \<and> current_assignee_index ((advance ^^ 3) (ex_chore \<lparr> current_assignee_index := Some 2 \<rparr>)) = Some 2
   \<and> current_assignee_index ((advance ^^ 1) (ex_chore \<lparr> current_assignee_index := Some 2 \<rparr>)) = Some 0
   \<and> assigned_to ((advance ^^ 1) (ex_chore \<lparr> current_assignee_index := Some 2 \<rparr>)) = Some ''alice''
   \<and> current_assignee_index ((advance ^^ 2) (ex_chore \<lparr> current_assignee_index := Some 2 \<rparr>)) = Some 1
   \<and> current_assignee_index ((advance ^^ 2) (ex_chore \<lparr> current_assignee_index := Some 2 \<rparr>)) \<noteq> Some 2"
proof -
  let ?ms = "[''alice'', ''bob'', ''carol'']"
  have l: "length ?ms = 3" by simp
  have r: "rotation (ex_chore \<lparr> current_assignee_index := i \<rparr>)"
    and m: "rotation_members (ex_chore \<lparr> current_assignee_index := i \<rparr>) = Some ?ms" for i
    by (simp_all add: ex_chore_def)
  have n: "?ms \<noteq> []" by simp
  note a = rotation_advance [OF r m n, where i1 = "Some 2", unfolded l]
  note b = rotation_advance [OF r m n, where i1 = None, unfolded l]
  note c = rotation_advance [OF r m n, where i1 = "Some 0", unfolded l]
  have a1: "current_assignee_index ((advance ^^ 3) (ex_chore \<lparr> current_assignee_index := Some 2 \<rparr>)) = Some 2"
    using a by simp
  have a2: "current_assignee_index ((advance ^^ j) (ex_chore \<lparr> current_assignee_index := Some 2 \<rparr>))
              = Some ((2 + j) mod 3)"
    and a3: "0 < j \<Longrightarrow> assigned_to ((advance ^^ j) (ex_chore \<lparr> current_assignee_index := Some 2 \<rparr>))
              = Some (?ms ! ((2 + j) mod 3))"
    for j
    using a by simp_all
  show ?thesis
    using a b c a1 a2 [of 1] a2 [of 2] a3 [of 1] by simp
qed

subsection \<open>Completing a chore that does not rotate\<close>



subsection \<open>Rotation enabled with an empty list of members\<close>

text \<open>
  Claim C8 says that with rotation enabled and an empty list the completion leaves
  \<open>current_assignee_index\<close> and \<open>assigned_to\<close> as they were. \<open>getNextAssignee\<close> tests the
  length of the list and keeps the assignee, but the index expression of \<open>completeChore\<close>
  does not test it: a null index becomes 0, and an index \<open>i\<close> becomes \<open>(i + 1) % 0 = NaN\<close>,
  which is stored as null. The trigger leaves both as it received them: the length of an
  empty array is null.
\<close>

theorem completeChore_empty_rotation_list:
  "(case completeChore 0 0 utc_session 1718010000000
           (ex_state (ex_chore \<lparr> rotation_members := Some [], current_assignee_index := None \<rparr>)) ''c1'' of
      Inr (c', st') \<Rightarrow> assigned_to c' = Some ''bob'' \<and> current_assignee_index c' = Some 0
    | Inl e \<Rightarrow> False)
   \<and> (case completeChore 0 0 utc_session 1718010000000
           (ex_state (ex_chore \<lparr> rotation_members := Some [], current_assignee_index := Some 1 \<rparr>)) ''c1'' of
      Inr (c', st') \<Rightarrow> assigned_to c' = Some ''bob'' \<and> current_assignee_index c' = None
    | Inl e \<Rightarrow> False)"
  by (simp add: completeChore_def updateChore_def ex_state_def ex_chore_def store_update_def
        set_columns_def update_next_due_def array_length_def
        completion_updates_def no_updates_def getNextAssignee_def nextAssigneeIndex_def
        js_rem_def toISOString_def Let_def)

text \<open>
  With rotation enabled and a null list both expressions take the other branch, and the
  completion changes \<open>next_due\<close> and \<open>last_completed\<close> only.
\<close>

lemma completeChore_null_rotation_list:
  assumes "find (\<lambda>c. chore_id c = cid) (chores st) = Some c"
    and "currentFamily st = Some (family_id c)"
    and "rotation_members c = None"
  shows "let due = (if last_completed c = Some now
                    then tsin (calculateNextDueDate tza now (frequency c) (Some (toISOString now)))
                    else plus_interval stz now (frequency c));
             c' = c \<lparr> next_due := Some due, last_completed := Some now \<rparr>
         in completeChore tza stz tsin now st cid =
              Inr (c', st \<lparr> chores := map (\<lambda>x. if chore_id x = cid then c' else x) (chores st) \<rparr>)"
proof -
  have n: "\<not> rotation c \<or> rotation_members c = None" using assms(3) by simp
  show ?thesis
    by (simp add: completeChore_found [OF assms(1,2)] completion_without_rotation [OF n] Let_def)
qed

subsection \<open>Toggling a to-do\<close>

text \<open>
  Claim C10. Toggling a to-do that the provider holds succeeds and changes its status
  only: to pending when the status was completed, to completed otherwise (so a to-do in
  progress becomes completed).
\<close>

theorem toggleTodoStatus_flips_status:
  assumes "find (\<lambda>t. todo_id t = tid) (todos st) = Some t"
    and "todos_currentFamily st = Some (todo_family_id t)"
  shows "toggleTodoStatus tsin st tid =
           Inr (t \<lparr> status := (if status t = Completed then Pending else Completed) \<rparr>,
                st \<lparr> todos := map (\<lambda>x. if todo_id x = tid
                                          then t \<lparr> status := (if status t = Completed then Pending else Completed) \<rparr>
                                          else x) (todos st) \<rparr>)"
proof -
  have f: "find (\<lambda>r. todo_id r = tid \<and> todo_family_id r = todo_family_id t) (todos st) = Some t"
    using assms(1) by (rule find_conj) simp
  have u: "store_update_todo tsin (no_todo_updates \<lparr> tu_status := Some s \<rparr>) t = t \<lparr> status := s \<rparr>" for s
    by (simp add: store_update_todo_def no_todo_updates_def)
  show ?thesis
    by (simp add: toggleTodoStatus_def updateTodo_def assms f u Let_def)
qed

text \<open>Claim C10 on a to-do in progress.\<close>

theorem toggleTodoStatus_in_progress:
  "toggleTodoStatus utc_session \<lparr> todos = [ex_todo], todos_currentFamily = Some ''f1'' \<rparr> ''t1''
     = Inr (ex_todo \<lparr> status := Completed \<rparr>,
            \<lparr> todos = [ex_todo \<lparr> status := Completed \<rparr>], todos_currentFamily = Some ''f1'' \<rparr>)"
proof -
  have f: "find (\<lambda>t. todo_id t = ''t1'')
             (todos \<lparr> todos = [ex_todo], todos_currentFamily = Some ''f1'' \<rparr>) = Some ex_todo"
    by (simp add: ex_todo_def)
  have g: "todos_currentFamily \<lparr> todos = [ex_todo], todos_currentFamily = Some ''f1'' \<rparr>
             = Some (todo_family_id ex_todo)"
    by (simp add: ex_todo_def)
  show ?thesis
    using toggleTodoStatus_flips_status [OF f g, of utc_session]
    by (simp add: ex_todo_def)
qed



section \<open>Properties of the chore form\<close>

text \<open>
  Claim C9. A submission whose title is empty after trimming, or that has rotation enabled
  with fewer than two members selected, is rejected before any call: the provider's state
  is unchanged, no create or update call is made, the form stays open, and the form's
  \<open>errors\<close> hold the message under the key of the offending field (\<open>title\<close>,
  \<open>rotation\<close>), next to which the form renders it.
\<close>

theorem handleSubmit_rejects_invalid:
  assumes "trim (f_title f) = [] \<or> (f_rotation f \<and> length (f_rotationMembers f) < 2)"
  shows "handleSubmit tza stz tsin now new_id st f = (f \<lparr> f_errors := validateForm f \<rparr>, st, [])
       \<and> validateForm f \<noteq> []
       \<and> (trim (f_title f) = [] \<longrightarrow> map_of (validateForm f) ''title'' = Some ''Title is required'')
       \<and> (f_rotation f \<and> length (f_rotationMembers f) < 2 \<longrightarrow>
            map_of (validateForm f) ''rotation'' = Some ''Rotation requires at least 2 family members'')"
proof -
  have ne: "validateForm f \<noteq> []"
    using assms by (auto simp: validateForm_def)
  have "handleSubmit tza stz tsin now new_id st f = (f \<lparr> f_errors := validateForm f \<rparr>, st, [])"
    using ne by (simp add: handleSubmit_def Let_def)
  moreover have "map_of (validateForm f) ''title'' = Some ''Title is required''"
    if "trim (f_title f) = []"
    using that by (simp add: validateForm_def)
  moreover have "map_of (validateForm f) ''rotation'' = Some ''Rotation requires at least 2 family members''"
    if "f_rotation f \<and> length (f_rotationMembers f) < 2"
    using that by (simp add: validateForm_def)
  ultimately show ?thesis using ne by blast
qed

text \<open>Claim C9 on a title of three spaces and a rotation with one member.\<close>

theorem handleSubmit_rejects_blank_title:
  "handleSubmit 0 0 utc_session 1718010000000 ''c2'' ex_empty_state
       (ex_form \<lparr> f_title := ''   '', f_rotationMembers := [''alice''] \<rparr>)
     = (ex_form \<lparr> f_title := ''   '', f_rotationMembers := [''alice''],
                  f_errors := [(''title'', ''Title is required''),
                               (''rotation'', ''Rotation requires at least 2 family members'')] \<rparr>,
        ex_empty_state, [])"
proof -
  let ?f = "ex_form \<lparr> f_title := ''   '', f_rotationMembers := [''alice''] \<rparr>"
  have t0: "trim ''   '' = []" by code_simp
  then have t: "trim (f_title ?f) = []" by simp
  have v: "validateForm ?f = [(''title'', ''Title is required''),
                               (''rotation'', ''Rotation requires at least 2 family members'')]"
    by (simp add: validateForm_def t0 ex_form_def)
  show ?thesis
    using handleSubmit_rejects_invalid [where f = ?f and tza = 0 and stz = 0 and tsin = utc_session
        and now = 1718010000000 and new_id = "''c2''" and st = ex_empty_state] t
    by (simp add: v)
qed


section \<open>The relation between assignee and rotation position\<close>

subsection \<open>Auxiliary facts\<close>


lemma update_next_due_ids:
  "chore_id (update_next_due stz OLD NEW) = chore_id NEW"
  "family_id (update_next_due stz OLD NEW) = family_id NEW"
  by (simp_all add: update_next_due_def Let_def split: option.splits)

lemma store_update_ids [simp]:
  "chore_id (store_update stz tsin u row) = chore_id row"
  "family_id (store_update stz tsin u row) = family_id row"
  by (simp_all add: store_update_def update_next_due_ids set_columns_def)












section \<open>Properties of the grouping by status\<close>

subsection \<open>Auxiliary facts about days and weeks\<close>

lemma msPerDay_pos: "0 < msPerDay" by (simp add: msPerDay_def)

lemma MonthFromTime_range: "0 \<le> MonthFromTime t" "MonthFromTime t \<le> 11"
  by (simp_all add: MonthFromTime_def Let_def)

lemma MakeDay_same_month:
  "MakeDay (YearFromTime t) (MonthFromTime t) dt = Day t - DateFromTime t + dt"
proof -
  have "MonthFromTime t div 12 = 0" "MonthFromTime t mod 12 = MonthFromTime t"
    using MonthFromTime_range [of t] by simp_all
  then show ?thesis
    by (simp add: MakeDay_def DateFromTime_def DayWithinYear_def InLeapYear_def Let_def)
qed

lemma Day_MakeDate: "Day (MakeDate d (TimeWithinDay t)) = d"
  by (simp add: Day_def MakeDate_def TimeWithinDay_def msPerDay_def)

lemma MakeDate_Day: "MakeDate (Day t + n) (TimeWithinDay t) = t + n * msPerDay"
  by (simp add: MakeDate_def Day_def TimeWithinDay_def algebra_simps)

lemma setDate_getDate: "setDate tza t (getDate tza t + n) = t + n * msPerDay"
  by (simp add: setDate_def getDate_def Let_def MakeDay_same_month MakeDate_Day
        LocalTime_def UTC_def)

lemma addDays_eq: "addDays tza t n = t + n * msPerDay"
  by (simp add: addDays_def setDate_getDate)

lemma startOfDay_eq: "startOfDay tza t = Day (LocalTime tza t) * msPerDay - tza"
  by (simp add: startOfDay_def setHoursZero_def MakeDate_def MakeTime_def UTC_def)

lemma isSameDay_iff: "isSameDay tza a b \<longleftrightarrow> Day (LocalTime tza a) = Day (LocalTime tza b)"
  by (simp add: isSameDay_def startOfDay_eq msPerDay_def)

lemma Day_add_days: "Day (t + n * msPerDay) = Day t + n"
  by (simp add: Day_def msPerDay_def)

lemma WeekDay_range: "0 \<le> WeekDay t" "WeekDay t < 7"
  by (simp_all add: WeekDay_def)

lemma startOfWeek_eq:
  "startOfWeek tza 0 t = (Day (LocalTime tza t) - WeekDay (LocalTime tza t)) * msPerDay - tza"
proof -
  have "setDate tza t (getDate tza t - WeekDay (LocalTime tza t))
          = t + (- WeekDay (LocalTime tza t)) * msPerDay"
    using setDate_getDate [of tza t "- WeekDay (LocalTime tza t)"] by simp
  moreover have "Day (LocalTime tza (t + (- WeekDay (LocalTime tza t)) * msPerDay))
          = Day (LocalTime tza t) - WeekDay (LocalTime tza t)"
    using Day_add_days [of "LocalTime tza t" "- WeekDay (LocalTime tza t)"]
    by (simp add: LocalTime_def algebra_simps)
  ultimately show ?thesis
    using WeekDay_range [of "LocalTime tza t"]
    by (simp add: startOfWeek_def getDay_def Let_def setHoursZero_def MakeDate_def MakeTime_def
          UTC_def)
qed


lemma same_week_start_iff:
  fixes a b :: int
  shows "a - (a + 4) mod 7 = b - (b + 4) mod 7
     \<longleftrightarrow> b - (b + 4) mod 7 \<le> a \<and> a \<le> b - (b + 4) mod 7 + 6"
proof
  assume "a - (a + 4) mod 7 = b - (b + 4) mod 7"
  moreover have "0 \<le> (a + 4) mod 7" "(a + 4) mod 7 < 7" by simp_all
  ultimately show "b - (b + 4) mod 7 \<le> a \<and> a \<le> b - (b + 4) mod 7 + 6"
    by linarith
next
  assume r: "b - (b + 4) mod 7 \<le> a \<and> a \<le> b - (b + 4) mod 7 + 6"
  define s where "s = b - (b + 4) mod 7"
  define j where "j = a - s"
  have j: "0 \<le> j" "j < 7" using r by (simp_all add: j_def s_def)
  have "7 dvd (b + 4) - (b + 4) mod 7" by (rule dvd_minus_mod)
  then obtain k where k: "(b + 4) - (b + 4) mod 7 = 7 * k" by (auto simp: dvd_def)
  have "a + 4 = j + 7 * k" using k by (simp add: j_def s_def)
  then have "(a + 4) mod 7 = j mod 7" by simp
  also have "\<dots> = j" using j by simp
  finally show "a - (a + 4) mod 7 = b - (b + 4) mod 7"
    by (simp add: j_def s_def)
qed

lemma isThisWeek_iff: "isThisWeek tza now t \<longleftrightarrow> in_calendar_week tza 0 now t"
proof -
  let ?a = "Day (LocalTime tza t)" and ?b = "Day (LocalTime tza now)"
  have "isThisWeek tza now t \<longleftrightarrow>
          (?a - WeekDay (LocalTime tza t)) * msPerDay = (?b - WeekDay (LocalTime tza now)) * msPerDay"
    by (simp add: isThisWeek_def isSameWeek_def startOfWeek_eq)
  also have "\<dots> \<longleftrightarrow> ?a - WeekDay (LocalTime tza t) = ?b - WeekDay (LocalTime tza now)"
    using msPerDay_pos by simp
  also have "\<dots> \<longleftrightarrow> ?a - (?a + 4) mod 7 = ?b - (?b + 4) mod 7"
    by (simp add: WeekDay_def)
  also have "\<dots> \<longleftrightarrow> in_calendar_week tza 0 now t"
    using same_week_start_iff [of ?a ?b]
    by (simp add: in_calendar_week_def week_start_day_def Let_def)
  finally show ?thesis .
qed

lemma week_start_day_is_weekStartsOn:
  "WeekDay (week_start_day 0 d * msPerDay) = 0"
proof -
  have "Day (week_start_day 0 d * msPerDay) = week_start_day 0 d"
    using msPerDay_pos by (simp add: Day_def)
  moreover have "(d - (d + 4) mod 7 + 4) mod 7 = 0"
  proof -
    have "7 dvd (d + 4) - (d + 4) mod 7" by (rule dvd_minus_mod)
    moreover have "d - (d + 4) mod 7 + 4 = (d + 4) - (d + 4) mod 7" by simp
    ultimately show ?thesis by (simp only: mod_eq_0_iff_dvd)
  qed
  ultimately show ?thesis
    by (simp add: WeekDay_def week_start_day_def)
qed

subsection \<open>Recently completed chores\<close>

text \<open>
  Claim C6 says that a chore completed within the current calendar week, Monday to Sunday,
  is grouped as recently completed. \<open>isThisWeek\<close> is called without options, so its week
  starts on Sunday: on Sunday 2024-06-16 a chore completed on Saturday 2024-06-15 (the
  same Monday-to-Sunday week) is not in that group.
\<close>

theorem saturday_completion_not_recent_on_sunday:
  "WeekDay 1718539200000 = 0 \<and> WeekDay 1718452800000 = 6
   \<and> in_calendar_week 0 1 1718539200000 1718452800000
   \<and> group_of 0 1718539200000 (ex_chore \<lparr> last_completed := Some 1718452800000 \<rparr>) = Upcoming"
  by code_simp

text \<open>
  Claim C6 as amended. A chore whose \<open>last_completed\<close> is set and falls, in the host's local
  time, within the current calendar week running Sunday to Saturday is grouped as recently
  completed, whatever its due date.
\<close>

theorem recently_completed_first:
  assumes "last_completed c = Some lc" and "in_calendar_week tza 0 now lc"
  shows "group_of tza now c = RecentlyCompleted"
  using assms by (simp add: group_of_def isThisWeek_iff)

text \<open>
  Claim C6 as amended, on Wednesday 2024-06-12: a chore completed on Sunday 2024-06-09 and
  due since 2024-06-01 is recently completed.
\<close>

theorem recently_completed_before_overdue:
  "in_calendar_week 0 0 1718193600000 1717934400000
   \<and> WeekDay 1717934400000 = 0
   \<and> group_of 0 1718193600000
        (ex_chore \<lparr> next_due := Some 1717200000000, last_completed := Some 1717934400000 \<rparr>)
      = RecentlyCompleted"
proof -
  have h: "in_calendar_week 0 0 1718193600000 1717934400000" by code_simp
  have w: "WeekDay 1717934400000 = 0" by code_simp
  have l: "last_completed (ex_chore \<lparr> next_due := Some 1717200000000,
             last_completed := Some 1717934400000 \<rparr>) = Some 1717934400000"
    by simp
  show ?thesis
    using recently_completed_first [OF l h] h w by simp
qed

subsection \<open>The ladder of due states\<close>

text \<open>
  Claim C5 says that a chore with no due date is classified NoDueDate. The chore list has
  four groups (Overdue, Due Today, Upcoming, Recently Completed) and pushes a chore with
  no due date to Upcoming.
\<close>

theorem chore_without_due_date_is_upcoming:
  "next_due ex_chore = None
   \<and> group_of 0 1718193600000 ex_chore = Upcoming
   \<and> map label (groupChoresByStatus 0 1718193600000 [ex_chore]) = [''Upcoming'']"
  by code_simp

text \<open>
  Claim C5 as amended. A chore that is not grouped as recently completed is grouped as
  Upcoming when it has no due date; otherwise as Overdue when the due time is strictly
  before now and not on the same local calendar day as now; otherwise as Due Today when
  it is on the same local calendar day as now; otherwise as Upcoming.
\<close>

theorem due_state_ladder:
  assumes "group_of tza now c \<noteq> RecentlyCompleted"
  shows "group_of tza now c =
           (case next_due c of
              None \<Rightarrow> Upcoming
            | Some due \<Rightarrow>
                if due < now \<and> Day (LocalTime tza due) \<noteq> Day (LocalTime tza now) then Overdue
                else if Day (LocalTime tza due) = Day (LocalTime tza now) then DueToday
                else Upcoming)"
  using assms
  by (simp add: group_of_def isToday_def isPast_def isSameDay_iff split: option.splits if_splits)


text \<open>
  Claim C5 as amended, at 2024-06-12T12:00:00Z: due on 2024-06-01 is overdue, due at 09:00
  the same day is due today, due the next day is upcoming.
\<close>

theorem due_state_ladder_examples:
  "group_of 0 1718193600000 (ex_chore \<lparr> next_due := Some 1717200000000 \<rparr>) = Overdue
   \<and> group_of 0 1718193600000 (ex_chore \<lparr> next_due := Some 1718182800000 \<rparr>) = DueToday
   \<and> group_of 0 1718193600000 (ex_chore \<lparr> next_due := Some 1718236800000 \<rparr>) = Upcoming"
proof -
  have h: "group_of 0 1718193600000 (ex_chore \<lparr> next_due := Some d \<rparr>) \<noteq> RecentlyCompleted" for d
    by (simp add: group_of_def ex_chore_def split: option.splits)
  show ?thesis
    using due_state_ladder [OF h [of 1717200000000]] due_state_ladder [OF h [of 1718182800000]]
      due_state_ladder [OF h [of 1718236800000]]
    by (simp add: Day_def LocalTime_def msPerDay_def)
qed



section \<open>Properties of the recurrence calculator\<close>

subsection \<open>The year, month and day of a day number\<close>

lemma DayFromYear_1970: "DayFromYear 1970 = 0"
  by (simp add: DayFromYear_def)

lemma DayFromYear_after: "1970 \<le> y \<Longrightarrow> DayFromYear y \<le> 366 * (y - 1970)"
proof (induction y rule: int_ge_induct)
  case base
  show ?case by (simp add: DayFromYear_1970)
next
  case (step i)
  then show ?case
    using DaysInYear_bounds(2) [of i] by (simp add: DayFromYear_step)
qed

lemma DayFromYear_before: "y \<le> 1970 \<Longrightarrow> DayFromYear y \<le> 365 * (y - 1970)"
proof (induction y rule: int_le_induct)
  case base
  show ?case by (simp add: DayFromYear_1970)
next
  case (step i)
  have "DayFromYear i = DayFromYear (i - 1) + DaysInYear (i - 1)"
    using DayFromYear_step [of "i - 1"] by simp
  then show ?case
    using step.IH DaysInYear_bounds(1) [of "i - 1"] by simp
qed

lemma DayFromYear_mono: "y \<le> y' \<Longrightarrow> DayFromYear y \<le> DayFromYear y'"
proof (induction y' rule: int_ge_induct)
  case base
  show ?case by simp
next
  case (step i)
  then show ?case
    using DayFromYear_less_succ [of i] by simp
qed

lemma find_year_spec:
  "DayFromYear y \<le> d \<Longrightarrow>
   DayFromYear (find_year d y) \<le> d \<and> d < DayFromYear (find_year d y + 1)"
proof (induction d y rule: find_year.induct)
  case (1 d y)
  show ?case
  proof (cases "DayFromYear (y + 1) \<le> d")
    case True
    then have "find_year d y = find_year d (y + 1)"
      by (subst find_year.simps) simp
    then show ?thesis using "1.IH" [OF True True] by simp
  next
    case False
    then have "find_year d y = y"
      by (subst find_year.simps) simp
    then show ?thesis using False "1.prems" by simp
  qed
qed

lemma find_year_start: "DayFromYear (1970 + (if 0 \<le> d then d div 366 else d div 365)) \<le> d"
proof (cases "0 \<le> d")
  case True
  have "0 \<le> d div 366" using True by simp
  then have "DayFromYear (1970 + d div 366) \<le> 366 * (d div 366)"
    using DayFromYear_after [of "1970 + d div 366"] by simp
  also have "\<dots> \<le> d"
    using mult_div_mod_eq [of 366 d] pos_mod_sign [of 366 d] by linarith
  finally show ?thesis using True by simp
next
  case False
  then have "d div 365 \<le> 0"
    using div_neg_pos_less0 [of d 365] by simp
  then have "DayFromYear (1970 + d div 365) \<le> 365 * (d div 365)"
    using DayFromYear_before [of "1970 + d div 365"] by simp
  also have "\<dots> \<le> d"
    using mult_div_mod_eq [of 365 d] pos_mod_sign [of 365 d] by linarith
  finally show ?thesis using False by simp
qed

lemma YearFromTime_bounds:
  "DayFromYear (YearFromTime t) \<le> Day t" "Day t < DayFromYear (YearFromTime t + 1)"
  using find_year_spec [OF find_year_start [of "Day t"]]
  by (simp_all add: YearFromTime_def Let_def)

lemma YearFromTime_eqI:
  assumes "DayFromYear y \<le> Day t" and "Day t < DayFromYear (y + 1)"
  shows "YearFromTime t = y"
proof (rule ccontr)
  assume ne: "YearFromTime t \<noteq> y"
  show False
  proof (cases "YearFromTime t < y")
    case True
    then have "DayFromYear (YearFromTime t + 1) \<le> DayFromYear y"
      by (intro DayFromYear_mono) simp
    then show False using YearFromTime_bounds(2) [of t] assms(1) by simp
  next
    case False
    then have "DayFromYear (y + 1) \<le> DayFromYear (YearFromTime t)"
      using ne by (intro DayFromYear_mono) simp
    then show False using YearFromTime_bounds(1) [of t] assms(2) by simp
  qed
qed


lemma DaysInYear_cases: "DaysInYear y = 365 \<or> DaysInYear y = 366"
  by (simp add: DaysInYear_def)

lemma month_cases:
  fixes m :: int
  assumes "0 \<le> m" "m \<le> 11"
  shows "m = 0 \<or> m = 1 \<or> m = 2 \<or> m = 3 \<or> m = 4 \<or> m = 5 \<or> m = 6 \<or> m = 7 \<or> m = 8 \<or> m = 9
       \<or> m = 10 \<or> m = 11"
  using assms by arith

lemma DayWithinYear_range: "0 \<le> DayWithinYear t" "DayWithinYear t < DaysInYear (YearFromTime t)"
  using YearFromTime_bounds [of t]
  by (simp_all add: DayWithinYear_def DayFromYear_step)

lemma MonthStart_simps:
  "MonthStart 0 l = 0" "MonthStart 1 l = 31" "MonthStart 2 l = 59 + l" "MonthStart 3 l = 90 + l"
  "MonthStart 4 l = 120 + l" "MonthStart 5 l = 151 + l" "MonthStart 6 l = 181 + l"
  "MonthStart 7 l = 212 + l" "MonthStart 8 l = 243 + l" "MonthStart 9 l = 273 + l"
  "MonthStart 10 l = 304 + l" "MonthStart 11 l = 334 + l"
  by (simp_all add: MonthStart_def)

text \<open>
  The month a day of the year falls in, read off the table of \<open>MonthFromTime\<close>: for a day
  \<open>d\<close> of month \<open>m\<close>, day \<open>MonthStart m l + d - 1\<close> of the year is in month \<open>m\<close>.
\<close>

lemma month_of_year_day:
  fixes m d l :: int
  assumes m: "0 \<le> m" "m \<le> 11" and d: "1 \<le> d"
    and dim: "d \<le> (if m = 1 then 28 + l else if m = 3 \<or> m = 5 \<or> m = 8 \<or> m = 10 then 30 else 31)"
    and lr: "0 \<le> l" "l \<le> 1"
  shows "0 \<le> MonthStart m l + d - 1" and "MonthStart m l + d - 1 < 365 + l"
    and "(let dw = MonthStart m l + d - 1
          in if dw < 31 then 0
             else if dw < 59 + l then 1
             else if dw < 90 + l then 2
             else if dw < 120 + l then 3
             else if dw < 151 + l then 4
             else if dw < 181 + l then 5
             else if dw < 212 + l then 6
             else if dw < 243 + l then 7
             else if dw < 273 + l then 8
             else if dw < 304 + l then 9
             else if dw < 334 + l then 10
             else 11) = m"
proof -
  consider "m = 0" | "m = 1" | "m = 2" | "m = 3" | "m = 4" | "m = 5" | "m = 6" | "m = 7"
    | "m = 8" | "m = 9" | "m = 10" | "m = 11"
    using month_cases [OF m] by blast
  then have "0 \<le> MonthStart m l + d - 1 \<and> MonthStart m l + d - 1 < 365 + l
       \<and> (let dw = MonthStart m l + d - 1
          in if dw < 31 then 0
             else if dw < 59 + l then 1
             else if dw < 90 + l then 2
             else if dw < 120 + l then 3
             else if dw < 151 + l then 4
             else if dw < 181 + l then 5
             else if dw < 212 + l then 6
             else if dw < 243 + l then 7
             else if dw < 273 + l then 8
             else if dw < 304 + l then 9
             else if dw < 334 + l then 10
             else 11) = m"
  proof cases
    case 1
    then show ?thesis using d dim lr by (simp add: MonthStart_simps Let_def)
  next
    case 2
    then show ?thesis using d dim lr by (simp add: MonthStart_simps Let_def)
  next
    case 3
    then show ?thesis using d dim lr by (simp add: MonthStart_simps Let_def)
  next
    case 4
    then show ?thesis using d dim lr by (simp add: MonthStart_simps Let_def)
  next
    case 5
    then show ?thesis using d dim lr by (simp add: MonthStart_simps Let_def)
  next
    case 6
    then show ?thesis using d dim lr by (simp add: MonthStart_simps Let_def)
  next
    case 7
    then show ?thesis using d dim lr by (simp add: MonthStart_simps Let_def)
  next
    case 8
    then show ?thesis using d dim lr by (simp add: MonthStart_simps Let_def)
  next
    case 9
    then show ?thesis using d dim lr by (simp add: MonthStart_simps Let_def)
  next
    case 10
    then show ?thesis using d dim lr by (simp add: MonthStart_simps Let_def)
  next
    case 11
    then show ?thesis using d dim lr by (simp add: MonthStart_simps Let_def)
  next
    case 12
    then show ?thesis using d dim lr by (simp add: MonthStart_simps Let_def)
  qed
  then show "0 \<le> MonthStart m l + d - 1" and "MonthStart m l + d - 1 < 365 + l"
    and "(let dw = MonthStart m l + d - 1
          in if dw < 31 then 0
             else if dw < 59 + l then 1
             else if dw < 90 + l then 2
             else if dw < 120 + l then 3
             else if dw < 151 + l then 4
             else if dw < 181 + l then 5
             else if dw < 212 + l then 6
             else if dw < 243 + l then 7
             else if dw < 273 + l then 8
             else if dw < 304 + l then 9
             else if dw < 334 + l then 10
             else 11) = m"
    by (rule conjunct1, rule conjunct2 [THEN conjunct1], rule conjunct2 [THEN conjunct2])
qed

lemma civil_of_day:
  assumes m: "0 \<le> m" "m \<le> 11" and d: "1 \<le> d" "d \<le> DaysInMonth y m"
    and t: "Day t = DayFromYear y + MonthStart m (if DaysInYear y = 366 then 1 else 0) + d - 1"
  shows "YearFromTime t = y" and "MonthFromTime t = m" and "DateFromTime t = d"
proof -
  define l :: int where "l = (if DaysInYear y = 366 then 1 else 0)"
  have diy: "DaysInYear y = 365 + l"
    using DaysInYear_cases [of y] by (auto simp: l_def)
  have "DaysInMonth y m =
      (if m = 1 then 28 + l else if m = 3 \<or> m = 5 \<or> m = 8 \<or> m = 10 then 30 else 31)"
    by (simp add: DaysInMonth_def l_def)
  then have dim: "d \<le> (if m = 1 then 28 + l else if m = 3 \<or> m = 5 \<or> m = 8 \<or> m = 10 then 30 else 31)"
    using d(2) by simp
  have lr: "0 \<le> l" "l \<le> 1" by (simp_all add: l_def)
  note w = month_of_year_day [OF m d(1) dim lr]
  have t': "Day t = DayFromYear y + MonthStart m l + d - 1"
    using t by (simp add: l_def)
  show y: "YearFromTime t = y"
  proof (rule YearFromTime_eqI)
    show "DayFromYear y \<le> Day t" using t' w(1) by linarith
    show "Day t < DayFromYear (y + 1)"
      unfolding DayFromYear_step diy using t' w(2) by linarith
  qed
  have dw: "DayWithinYear t = MonthStart m l + d - 1"
    by (simp add: DayWithinYear_def y t')
  have il: "InLeapYear t = l"
    by (simp add: InLeapYear_def y l_def)
  show mo: "MonthFromTime t = m"
    using w(3) unfolding MonthFromTime_def dw il Let_def .
  show "DateFromTime t = d"
    by (simp add: DateFromTime_def mo il dw)
qed

lemma MonthFromTime_char:
  "MonthStart (MonthFromTime t) (InLeapYear t) \<le> DayWithinYear t"
  "DayWithinYear t < MonthStart (MonthFromTime t) (InLeapYear t)
                      + DaysInMonth (YearFromTime t) (MonthFromTime t)"
proof -
  define l :: int where "l = InLeapYear t"
  define dw :: int where "dw = DayWithinYear t"
  have diy: "DaysInYear (YearFromTime t) = 365 + l"
    using DaysInYear_cases [of "YearFromTime t"] by (auto simp: l_def InLeapYear_def)
  have l01: "0 \<le> l" "l \<le> 1" by (simp_all add: l_def InLeapYear_def)
  have dim: "DaysInMonth (YearFromTime t) m = (if m = 1 then 28 + l
      else if m = 3 \<or> m = 5 \<or> m = 8 \<or> m = 10 then 30 else 31)" for m
    by (simp add: DaysInMonth_def l_def InLeapYear_def)
  have r: "0 \<le> dw" "dw < 365 + l"
    using DayWithinYear_range [of t] diy by (simp_all add: dw_def)
  have "MonthStart (MonthFromTime t) l \<le> dw
      \<and> dw < MonthStart (MonthFromTime t) l + DaysInMonth (YearFromTime t) (MonthFromTime t)"
  proof -
    consider (m0) "dw < 31"
      | (m1) "31 \<le> dw" "dw < 59 + l"
      | (m2) "59 + l \<le> dw" "dw < 90 + l"
      | (m3) "90 + l \<le> dw" "dw < 120 + l"
      | (m4) "120 + l \<le> dw" "dw < 151 + l"
      | (m5) "151 + l \<le> dw" "dw < 181 + l"
      | (m6) "181 + l \<le> dw" "dw < 212 + l"
      | (m7) "212 + l \<le> dw" "dw < 243 + l"
      | (m8) "243 + l \<le> dw" "dw < 273 + l"
      | (m9) "273 + l \<le> dw" "dw < 304 + l"
      | (m10) "304 + l \<le> dw" "dw < 334 + l"
      | (m11) "334 + l \<le> dw"
      by linarith
    then show ?thesis
    proof cases
      case m0
    then have "MonthFromTime t = 0"
      using l01 by (simp add: MonthFromTime_def Let_def dw_def [symmetric] l_def [symmetric])
    then show ?thesis
      using m0 r l01 by (simp add: MonthStart_simps dim)
  next
    case m1
    then have "MonthFromTime t = 1"
      using l01 by (simp add: MonthFromTime_def Let_def dw_def [symmetric] l_def [symmetric])
    then show ?thesis
      using m1 r l01 by (simp add: MonthStart_simps dim)
  next
    case m2
    then have "MonthFromTime t = 2"
      using l01 by (simp add: MonthFromTime_def Let_def dw_def [symmetric] l_def [symmetric])
    then show ?thesis
      using m2 r l01 by (simp add: MonthStart_simps dim)
  next
    case m3
    then have "MonthFromTime t = 3"
      using l01 by (simp add: MonthFromTime_def Let_def dw_def [symmetric] l_def [symmetric])
    then show ?thesis
      using m3 r l01 by (simp add: MonthStart_simps dim)
  next
    case m4
    then have "MonthFromTime t = 4"
      using l01 by (simp add: MonthFromTime_def Let_def dw_def [symmetric] l_def [symmetric])
    then show ?thesis
      using m4 r l01 by (simp add: MonthStart_simps dim)
  next
    case m5
    then have "MonthFromTime t = 5"
      using l01 by (simp add: MonthFromTime_def Let_def dw_def [symmetric] l_def [symmetric])
    then show ?thesis
      using m5 r l01 by (simp add: MonthStart_simps dim)
  next
    case m6
    then have "MonthFromTime t = 6"
      using l01 by (simp add: MonthFromTime_def Let_def dw_def [symmetric] l_def [symmetric])
    then show ?thesis
      using m6 r l01 by (simp add: MonthStart_simps dim)
  next
    case m7
    then have "MonthFromTime t = 7"
      using l01 by (simp add: MonthFromTime_def Let_def dw_def [symmetric] l_def [symmetric])
    then show ?thesis
      using m7 r l01 by (simp add: MonthStart_simps dim)
  next
    case m8
    then have "MonthFromTime t = 8"
      using l01 by (simp add: MonthFromTime_def Let_def dw_def [symmetric] l_def [symmetric])
    then show ?thesis
      using m8 r l01 by (simp add: MonthStart_simps dim)
  next
    case m9
    then have "MonthFromTime t = 9"
      using l01 by (simp add: MonthFromTime_def Let_def dw_def [symmetric] l_def [symmetric])
    then show ?thesis
      using m9 r l01 by (simp add: MonthStart_simps dim)
  next
    case m10
    then have "MonthFromTime t = 10"
      using l01 by (simp add: MonthFromTime_def Let_def dw_def [symmetric] l_def [symmetric])
    then show ?thesis
      using m10 r l01 by (simp add: MonthStart_simps dim)
  next
    case m11
    then have "MonthFromTime t = 11"
      using l01 by (simp add: MonthFromTime_def Let_def dw_def [symmetric] l_def [symmetric])
    then show ?thesis
      using m11 r l01 by (simp add: MonthStart_simps dim)
    qed
  qed
  then show "MonthStart (MonthFromTime t) (InLeapYear t) \<le> DayWithinYear t"
    and "DayWithinYear t < MonthStart (MonthFromTime t) (InLeapYear t)
                      + DaysInMonth (YearFromTime t) (MonthFromTime t)"
    by (simp_all add: l_def dw_def)
qed

lemma DateFromTime_range:
  "1 \<le> DateFromTime t" "DateFromTime t \<le> DaysInMonth (YearFromTime t) (MonthFromTime t)"
  using MonthFromTime_char [of t] by (simp_all add: DateFromTime_def)




subsection \<open>The time of day\<close>

lemma field_of_time_within_day:
  fixes t b c k :: int
  assumes "0 < b" and "0 < c" and "k dvd c"
  shows "((t mod (b * c)) div b) mod k = (t div b) mod k"
proof -
  have "t mod (b * c) = b * (t div b mod c) + t mod b"
    using assms(2) by (simp add: zmod_zmult2_eq)
  moreover have "(b * (t div b mod c) + t mod b) div b = t div b mod c"
    using assms(1) by simp
  ultimately have "(t mod (b * c)) div b = t div b mod c" by simp
  then show ?thesis
    using assms(3) by (simp add: mod_mod_cancel)
qed

lemma time_fields_of_TimeWithinDay:
  "HourFromTime t = (TimeWithinDay t div msPerHour) mod 24"
  "MinFromTime t = (TimeWithinDay t div msPerMinute) mod 60"
  "SecFromTime t = (TimeWithinDay t div msPerSecond) mod 60"
proof -
  have "msPerDay = msPerHour * 24" by (simp add: msPerDay_def msPerHour_def)
  then show "HourFromTime t = (TimeWithinDay t div msPerHour) mod 24"
    using field_of_time_within_day [of msPerHour 24 24 t]
    by (simp add: HourFromTime_def TimeWithinDay_def msPerHour_def)
  have "msPerDay = msPerMinute * 1440" by (simp add: msPerDay_def msPerMinute_def)
  then show "MinFromTime t = (TimeWithinDay t div msPerMinute) mod 60"
    using field_of_time_within_day [of msPerMinute 1440 60 t]
    by (simp add: MinFromTime_def TimeWithinDay_def msPerMinute_def)
  have "msPerDay = msPerSecond * 86400" by (simp add: msPerDay_def msPerSecond_def)
  then show "SecFromTime t = (TimeWithinDay t div msPerSecond) mod 60"
    using field_of_time_within_day [of msPerSecond 86400 60 t]
    by (simp add: SecFromTime_def TimeWithinDay_def msPerSecond_def)
qed

lemma TimeWithinDay_MakeDate: "TimeWithinDay (MakeDate d (TimeWithinDay t)) = TimeWithinDay t"
  by (simp add: TimeWithinDay_def MakeDate_def)

lemma time_fields_MakeDate:
  "HourFromTime (MakeDate d (TimeWithinDay t)) = HourFromTime t"
  "MinFromTime (MakeDate d (TimeWithinDay t)) = MinFromTime t"
  "SecFromTime (MakeDate d (TimeWithinDay t)) = SecFromTime t"
  by (simp_all add: time_fields_of_TimeWithinDay TimeWithinDay_MakeDate)

subsection \<open>One month later\<close>

lemma MakeDay_next_month:
  assumes "0 \<le> m" "m \<le> 11"
  shows "MakeDay y (m + 1) d =
           DayFromYear (if m = 11 then y + 1 else y)
           + MonthStart (if m = 11 then 0 else m + 1)
               (if DaysInYear (if m = 11 then y + 1 else y) = 366 then 1 else 0)
           + d - 1"
proof (cases "m = 11")
  case True
  then show ?thesis by (simp add: MakeDay_def)
next
  case False
  then have "(m + 1) div 12 = 0" "(m + 1) mod 12 = m + 1"
    using assms by simp_all
  then show ?thesis using False by (simp add: MakeDay_def)
qed

lemma format_datetime_of_civil:
  assumes m: "0 \<le> m" "m \<le> 11" and d: "1 \<le> d" "d \<le> DaysInMonth y m"
    and day: "dn = DayFromYear y + MonthStart m (if DaysInYear y = 366 then 1 else 0) + d - 1"
  shows "format_datetime tza (UTC tza (MakeDate dn (TimeWithinDay lt))) =
           \<lparr> wc_year = y, wc_month = m + 1, wc_day = d, wc_hour = HourFromTime lt,
             wc_minute = MinFromTime lt, wc_second = SecFromTime lt \<rparr>"
proof -
  let ?r = "MakeDate dn (TimeWithinDay lt)"
  have l: "LocalTime tza (UTC tza ?r) = ?r" by (simp add: LocalTime_def UTC_def)
  have "Day ?r = DayFromYear y + MonthStart m (if DaysInYear y = 366 then 1 else 0) + d - 1"
    by (simp add: Day_MakeDate day)
  note c = civil_of_day [OF m d this]
  show ?thesis
    by (simp add: format_datetime_def l c time_fields_MakeDate)
qed


lemma DaysInMonth_le_31: "DaysInMonth y m \<le> 31"
  by (simp add: DaysInMonth_def)

lemma DaysInMonth_ge_28: "28 \<le> DaysInMonth y m"
  by (simp add: DaysInMonth_def)

lemma short_month_cases:
  assumes "DaysInMonth y m < 31"
  shows "m = 1 \<or> m = 3 \<or> m = 5 \<or> m = 8 \<or> m = 10"
  using assms by (simp add: DaysInMonth_def split: if_splits)

lemma after_short_month:
  assumes "m = 1 \<or> m = 3 \<or> m = 5 \<or> m = 8 \<or> m = 10"
  shows "MonthStart (m + 1) (if DaysInYear y = 366 then 1 else 0) =
           MonthStart m (if DaysInYear y = 366 then 1 else 0) + DaysInMonth y m"
    and "DaysInMonth y (m + 1) = 31"
  using assms by (auto simp: MonthStart_simps DaysInMonth_def)

lemma setMonth_next_value:
  fixes tza start :: int
  defines "lt \<equiv> LocalTime tza start"
  defines "y1 \<equiv> (if MonthFromTime lt = 11 then YearFromTime lt + 1 else YearFromTime lt)"
  defines "m1 \<equiv> (if MonthFromTime lt = 11 then 0 else MonthFromTime lt + 1)"
  shows "format_datetime tza (setMonth tza start (getMonth tza start + 1)) =
           (if DateFromTime lt \<le> DaysInMonth y1 m1
            then \<lparr> wc_year = y1, wc_month = m1 + 1, wc_day = DateFromTime lt,
                   wc_hour = HourFromTime lt, wc_minute = MinFromTime lt,
                   wc_second = SecFromTime lt \<rparr>
            else \<lparr> wc_year = y1, wc_month = m1 + 2,
                   wc_day = DateFromTime lt - DaysInMonth y1 m1,
                   wc_hour = HourFromTime lt, wc_minute = MinFromTime lt,
                   wc_second = SecFromTime lt \<rparr>)"
proof -
  define d where "d = DateFromTime lt"
  define l1 :: int where "l1 = (if DaysInYear y1 = 366 then 1 else 0)"
  define dn where "dn = MakeDay (YearFromTime lt) (MonthFromTime lt + 1) d"
  have m1: "0 \<le> m1" "m1 \<le> 11"
    using MonthFromTime_range [of lt] by (simp_all add: m1_def)
  have d: "1 \<le> d" "d \<le> 31"
    using DateFromTime_range [of lt] DaysInMonth_le_31 [of "YearFromTime lt" "MonthFromTime lt"]
    by (simp_all add: d_def)
  have dn: "dn = DayFromYear y1 + MonthStart m1 l1 + d - 1"
    unfolding dn_def y1_def m1_def l1_def
    by (rule MakeDay_next_month) (rule MonthFromTime_range)+
  have s: "setMonth tza start (getMonth tza start + 1) = UTC tza (MakeDate dn (TimeWithinDay lt))"
    by (simp add: setMonth_def getMonth_def Let_def lt_def dn_def d_def)
  show ?thesis
  proof (cases "d \<le> DaysInMonth y1 m1")
    case True
    have "format_datetime tza (UTC tza (MakeDate dn (TimeWithinDay lt))) =
            \<lparr> wc_year = y1, wc_month = m1 + 1, wc_day = d, wc_hour = HourFromTime lt,
              wc_minute = MinFromTime lt, wc_second = SecFromTime lt \<rparr>"
      by (rule format_datetime_of_civil [OF m1 d(1) True]) (simp add: dn l1_def)
    then show ?thesis using True by (simp add: s d_def)
  next
    case False
    then have short: "DaysInMonth y1 m1 < 31" using d(2) by simp
    note sm = short_month_cases [OF short]
    have m2: "0 \<le> m1 + 1" "m1 + 1 \<le> 11" using sm by auto
    have e: "1 \<le> d - DaysInMonth y1 m1" "d - DaysInMonth y1 m1 \<le> DaysInMonth y1 (m1 + 1)"
      using False d(2) DaysInMonth_ge_28 [of y1 m1] after_short_month(2) [OF sm, of y1]
      by simp_all
    have dn': "dn = DayFromYear y1 + MonthStart (m1 + 1) (if DaysInYear y1 = 366 then 1 else 0)
                + (d - DaysInMonth y1 m1) - 1"
      using after_short_month(1) [OF sm, of y1] by (simp add: dn l1_def)
    have "format_datetime tza (UTC tza (MakeDate dn (TimeWithinDay lt))) =
            \<lparr> wc_year = y1, wc_month = m1 + 1 + 1, wc_day = d - DaysInMonth y1 m1,
              wc_hour = HourFromTime lt, wc_minute = MinFromTime lt, wc_second = SecFromTime lt \<rparr>"
      by (rule format_datetime_of_civil [OF m2 e dn'])
    then show ?thesis using False by (simp add: s d_def)
  qed
qed

subsection \<open>The next due date\<close>

text \<open>
  Claim C2 says that for \<open>monthly\<close> a day that the target month lacks is clamped to the
  last day of that month, so that 2024-01-31 gives 2024-02-29. \<open>calculateNextDueDate\<close>
  calls \<open>setMonth(getMonth() + 1)\<close>, which counts the day of the month on from the first
  day of the target month: 2024-01-31T09:00:00Z (1706691600000) gives 2024-03-02T09:00:00.
  The other calculator of the repository, the \<open>+ INTERVAL '1 month'\<close> of the store's trigger,
  does clamp: it gives 2024-02-29T09:00:00Z (1709197200000).
\<close>

theorem monthly_from_january_31_is_march_2:
  "format_datetime 0 1706691600000 =
     \<lparr> wc_year = 2024, wc_month = 1, wc_day = 31, wc_hour = 9, wc_minute = 0, wc_second = 0 \<rparr>
   \<and> calculateNextDueDate 0 1706691600000 Monthly (Some (toISOString 1706691600000)) =
     \<lparr> wc_year = 2024, wc_month = 3, wc_day = 2, wc_hour = 9, wc_minute = 0, wc_second = 0 \<rparr>
   \<and> calculateNextDueDate 0 1706691600000 Monthly (Some (toISOString 1706691600000)) \<noteq>
     \<lparr> wc_year = 2024, wc_month = 2, wc_day = 29, wc_hour = 9, wc_minute = 0, wc_second = 0 \<rparr>
   \<and> plus_interval 0 1706691600000 Monthly = 1709197200000
   \<and> format_datetime 0 1709197200000 =
     \<lparr> wc_year = 2024, wc_month = 2, wc_day = 29, wc_hour = 9, wc_minute = 0, wc_second = 0 \<rparr>"
  by code_simp


text \<open>
  The value of \<open>calculateNextDueDate\<close> in general. The start is \<open>lastCompleted\<close> when given
  and the clock reading otherwise. The calculator returns, as the host's local date and
  time to the second (no milliseconds, no zone), the start plus one day for \<open>daily\<close> and
  the start plus seven days for \<open>weekly\<close>. For \<open>monthly\<close> it returns the same local time of
  day in the following calendar month, on the same day of the month when that month has
  such a day; when it has not, on the day of the month after that which is as many days
  past the following month's last day (day 31 after a 29-day February is 2 March).
\<close>

lemma calculateNextDueDate_value:
  "(let start = (case lastCompleted of Some s \<Rightarrow> new_Date tza s | None \<Rightarrow> now);
        lt = LocalTime tza start;
        y1 = (if MonthFromTime lt = 11 then YearFromTime lt + 1 else YearFromTime lt);
        m1 = (if MonthFromTime lt = 11 then 0 else MonthFromTime lt + 1)
    in calculateNextDueDate tza now Daily lastCompleted = format_datetime tza (start + msPerDay)
     \<and> calculateNextDueDate tza now Weekly lastCompleted = format_datetime tza (start + 7 * msPerDay)
     \<and> calculateNextDueDate tza now Monthly lastCompleted =
          (if DateFromTime lt \<le> DaysInMonth y1 m1
           then \<lparr> wc_year = y1, wc_month = m1 + 1, wc_day = DateFromTime lt,
                  wc_hour = HourFromTime lt, wc_minute = MinFromTime lt,
                  wc_second = SecFromTime lt \<rparr>
           else \<lparr> wc_year = y1, wc_month = m1 + 2,
                  wc_day = DateFromTime lt - DaysInMonth y1 m1,
                  wc_hour = HourFromTime lt, wc_minute = MinFromTime lt,
                  wc_second = SecFromTime lt \<rparr>))"
  unfolding Let_def
  using setMonth_next_value [of tza "case lastCompleted of Some s \<Rightarrow> new_Date tza s | None \<Rightarrow> now"]
  by (simp add: calculateNextDueDate_def addDays_eq Let_def)


text \<open>
  From 2023-12-31T09:00:00.500Z with the host in UTC: daily gives 2024-01-01T09:00:00,
  weekly 2024-01-07T09:00:00 and monthly 2024-01-31T09:00:00.
\<close>

lemma calculateNextDueDate_across_new_year:
  "calculateNextDueDate 0 0 Daily (Some (toISOString 1704013200500)) =
     \<lparr> wc_year = 2024, wc_month = 1, wc_day = 1, wc_hour = 9, wc_minute = 0, wc_second = 0 \<rparr>
   \<and> calculateNextDueDate 0 0 Weekly (Some (toISOString 1704013200500)) =
     \<lparr> wc_year = 2024, wc_month = 1, wc_day = 7, wc_hour = 9, wc_minute = 0, wc_second = 0 \<rparr>
   \<and> calculateNextDueDate 0 0 Monthly (Some (toISOString 1704013200500)) =
     \<lparr> wc_year = 2024, wc_month = 1, wc_day = 31, wc_hour = 9, wc_minute = 0, wc_second = 0 \<rparr>"
proof -
  have a: "format_datetime 0 (1704013200500 + msPerDay) =
      \<lparr> wc_year = 2024, wc_month = 1, wc_day = 1, wc_hour = 9, wc_minute = 0, wc_second = 0 \<rparr>"
    by code_simp
  have b: "format_datetime 0 (1704013200500 + 7 * msPerDay) =
      \<lparr> wc_year = 2024, wc_month = 1, wc_day = 7, wc_hour = 9, wc_minute = 0, wc_second = 0 \<rparr>"
    by code_simp
  have c: "YearFromTime 1704013200500 = 2023" "MonthFromTime 1704013200500 = 11"
    "DateFromTime 1704013200500 = 31" "DaysInMonth 2024 0 = 31"
    "HourFromTime 1704013200500 = 9" "MinFromTime 1704013200500 = 0"
    "SecFromTime 1704013200500 = 0"
    by code_simp+
  show ?thesis
    using calculateNextDueDate_value [where lastCompleted = "Some (toISOString 1704013200500)"
        and tza = 0 and now = 0]
    by (simp add: Let_def toISOString_def LocalTime_def a b c)
qed


end
